theory Spec2Isabelle
  imports Complex_Main
begin

section \<open>The document tree that update_template.py mutates\<close>

text \<open>
  The scripts work on the object tree of the presentation library: a presentation is a
  list of slides, a slide a list of shapes, a text frame a list of paragraphs, a
  paragraph a list of runs with an outline level and a paragraph-level font, a run a
  text with a font. Every font property is optional (Python's \<^verbatim>\<open>None\<close> when unset).
  Line-break and field elements inside a paragraph are left out: a paragraph holds runs
  only. One \<^typ>\<open>char\<close> stands for one character of a Python string, so \<^const>\<open>length\<close>
  is Python's \<^verbatim>\<open>len\<close>.
\<close>

datatype exn =
    IndexError string
  | TypeError string
  | ValueError string
  | InvalidXmlError string

fun str_exn :: "exn \<Rightarrow> string" where
  "str_exn (IndexError m) = m"
| "str_exn (TypeError m) = m"
| "str_exn (ValueError m) = m"
| "str_exn (InvalidXmlError m) = m"

datatype rgb_color = RGBColor nat nat nat

text \<open>
  A colour whose \<^verbatim>\<open>type\<close> is not \<^verbatim>\<open>None\<close>: an explicit RGB value, a theme
  (scheme) colour with its index in the palette (1 and up; 0 is the library's
  \<^verbatim>\<open>NOT_THEME_COLOR\<close>), a scheme colour element that carries no index (what a
  refused theme assignment leaves behind; its type is still SCHEME), or one of the
  remaining kinds (HSL, preset, system, scRGB). A font without a typed colour has
  \<^verbatim>\<open>font_color = None\<close>.
\<close>

datatype color_format =
    SRgbColor rgb_color
  | SchemeColor nat
  | EmptySchemeColor
  | OtherColor

datatype underline = UnderlineOff | UnderlineOn | UnderlineKind nat

record font =
  font_size :: "int option"
  font_name :: "string option"
  font_bold :: "bool option"
  font_italic :: "bool option"
  font_underline :: "underline option"
  font_color :: "color_format option"

record run =
  run_text :: string
  run_font :: font

record para =
  runs :: "run list"
  level :: nat
  para_font :: font

record text_frame =
  paragraphs :: "para list"

record table =
  rows :: "text_frame list list"

text \<open>
  The three kinds of shape the dispatcher tells apart: a shape with a text frame, a
  graphic frame holding a table (no text frame, shape type TABLE), and anything else
  (picture, connector, group, chart: no text frame, not a table).
\<close>

datatype shape =
    TextShape text_frame
  | TableShape table
  | OtherShape

type_synonym slide = "shape list"

record presentation =
  slides :: "slide list"

definition default_font :: font where
  "default_font = \<lparr>font_size = None, font_name = None, font_bold = None,
     font_italic = None, font_underline = None, font_color = None\<rparr>"

text \<open>\<^verbatim>\<open>paragraph.add_run()\<close>: a new run, empty and unformatted, at the end.\<close>

definition new_run :: run where
  "new_run = \<lparr>run_text = [], run_font = default_font\<rparr>"

text \<open>\<^verbatim>\<open>text_frame.add_paragraph()\<close>: a new empty paragraph at outline level 0.\<close>

definition new_paragraph :: para where
  "new_paragraph = \<lparr>runs = [], level = 0, para_font = default_font\<rparr>"

text \<open>\<^verbatim>\<open>paragraph.clear()\<close> removes the content and keeps the paragraph properties.\<close>

definition paragraph_clear :: "para \<Rightarrow> para" where
  "paragraph_clear p = p\<lparr>runs := []\<rparr>"

definition NL :: char where
  "NL = CHR 0x0A"

fun join :: "string \<Rightarrow> string list \<Rightarrow> string" where
  "join sep [] = []"
| "join sep [x] = x"
| "join sep (x # y # ys) = x @ sep @ join sep (y # ys)"

definition paragraph_text :: "para \<Rightarrow> string" where
  "paragraph_text p = concat (map run_text (runs p))"

text \<open>\<^verbatim>\<open>text_frame.text\<close>: the paragraphs' texts joined by line feeds.\<close>

definition text_frame_text :: "text_frame \<Rightarrow> string" where
  "text_frame_text tf = join [NL] (map paragraph_text (paragraphs tf))"

text \<open>
  \<^verbatim>\<open>text_frame.clear()\<close> removes every paragraph but the first and clears that one;
  it reads \<^verbatim>\<open>paragraphs[0]\<close>, which raises on a frame without paragraphs.
\<close>

definition text_frame_clear :: "text_frame \<Rightarrow> exn + text_frame" where
  "text_frame_clear tf =
     (case paragraphs tf of
        [] \<Rightarrow> Inl (IndexError ''tuple index out of range'')
      | p # _ \<Rightarrow> Inr (tf\<lparr>paragraphs := [paragraph_clear p]\<rparr>))"

subsection \<open>Colour assignment\<close>

text \<open>
  What the script assigns to \<^verbatim>\<open>color.rgb\<close>: an RGB value, or (in the simple
  replacement and in the table cell) the captured colour object itself. The library's
  setter accepts an RGB value only and raises ValueError for anything else.
\<close>

datatype py_value = RGBColorVal rgb_color | ColorFormatObj color_format

definition set_color_rgb :: "py_value \<Rightarrow> font \<Rightarrow> exn + font" where
  "set_color_rgb v f =
     (case v of
        RGBColorVal c \<Rightarrow> Inr (f\<lparr>font_color := Some (SRgbColor c)\<rparr>)
      | ColorFormatObj _ \<Rightarrow> Inl (ValueError ''assigned value must be type RGBColor''))"

text \<open>
  \<^verbatim>\<open>color.theme_color = idx\<close>: the setter first turns the colour into a scheme colour
  element and then writes the index. Index 0 (not a theme colour) has no representation
  in the document: writing it raises ValueError, and the element without index stays.
  The result is the exception, if any, and the font as the setter left it.
\<close>

definition set_color_theme :: "nat \<Rightarrow> font \<Rightarrow> exn option \<times> font" where
  "set_color_theme idx f =
     (if idx = 0
      then (Some (ValueError ''not a theme color''), f\<lparr>font_color := Some EmptySchemeColor\<rparr>)
      else (None, f\<lparr>font_color := Some (SchemeColor idx)\<rparr>))"

text \<open>
  \<^verbatim>\<open>hasattr(color, 'rgb') and color.rgb\<close>: only an RGB colour has the attribute, and
  an RGB value (a 3-tuple) is always true.
\<close>

fun color_rgb :: "color_format \<Rightarrow> rgb_color option" where
  "color_rgb (SRgbColor c) = Some c"
| "color_rgb (SchemeColor _) = None"
| "color_rgb EmptySchemeColor = None"
| "color_rgb OtherColor = None"

text \<open>
  Reading \<^verbatim>\<open>color.theme_color\<close>: the index of a scheme colour, 0 for the other
  kinds; on a scheme colour element without index the read raises an error that is not
  an AttributeError, so \<^verbatim>\<open>hasattr\<close> does not absorb it.
\<close>

fun color_theme_color :: "color_format \<Rightarrow> exn + nat" where
  "color_theme_color (SchemeColor i) = Inr i"
| "color_theme_color (SRgbColor _) = Inr 0"
| "color_theme_color OtherColor = Inr 0"
| "color_theme_color EmptySchemeColor =
     Inl (InvalidXmlError ''required attribute not present on element'')"

subsection \<open>Run text\<close>

text \<open>
  \<^verbatim>\<open>run.text = s\<close>: the setter stores the string with every control character
  other than tab and line feed (codes 0 to 8 and 11 to 31) replaced by the seven
  characters \<^verbatim>\<open>_xHHHH_\<close>, its code in four upper-case hexadecimal digits; reading the
  text back gives the stored string.
\<close>

definition hex_digit :: "nat \<Rightarrow> char" where
  "hex_digit n = ''0123456789ABCDEF'' ! n"

definition is_control :: "char \<Rightarrow> bool" where
  "is_control c = ((of_char c :: nat) < 9 \<or> (11 \<le> (of_char c :: nat) \<and> (of_char c :: nat) \<le> 31))"

definition escape_char :: "char \<Rightarrow> string" where
  "escape_char c =
     (if is_control c
      then ''_x00'' @ [hex_digit (of_char c div 16), hex_digit (of_char c mod 16)] @ ''_''
      else [c])"

definition escape :: "string \<Rightarrow> string" where
  "escape s = concat (map escape_char s)"

section \<open>Strings of numbers, splitting\<close>

definition digit :: "nat \<Rightarrow> char" where
  "digit n = ''0123456789'' ! n"

function str_nat :: "nat \<Rightarrow> string" where
  "str_nat n = (if n < 10 then [digit n] else str_nat (n div 10) @ [digit (n mod 10)])"
  by pat_completeness auto
termination
  by (relation "measure id") auto

declare str_nat.simps [simp del]

definition str_int :: "int \<Rightarrow> string" where
  "str_int i = (if i < 0 then CHR ''-'' # str_nat (nat (- i)) else str_nat (nat i))"

text \<open>\<^verbatim>\<open>s.split('\n')\<close>: one piece more than there are line feeds, never empty.\<close>

fun split_nl :: "string \<Rightarrow> string list" where
  "split_nl [] = [[]]"
| "split_nl (c # cs) =
     (if c = NL then [] # split_nl cs
      else (c # hd (split_nl cs)) # tl (split_nl cs))"

section \<open>Instructions and reports\<close>

text \<open>
  A field read with \<^verbatim>\<open>update.get(...)\<close>: absent (\<^verbatim>\<open>None\<close>), an integer, or a
  string. JSON numbers with a fraction and booleans are not modelled. The text,
  \<^verbatim>\<open>preserve_bullets\<close> and \<^verbatim>\<open>table_cells\<close> fields hold the value after the default
  of \<^verbatim>\<open>get\<close> has been applied.
\<close>

datatype json = JNone | JInt int | JStr string

fun str_json :: "json \<Rightarrow> string" where
  "str_json JNone = ''None''"
| "str_json (JInt i) = str_int i"
| "str_json (JStr s) = s"

record cell_update =
  cu_row :: json
  cu_column :: json
  cu_text :: string

record update =
  upd_slide :: json
  upd_shape :: json
  upd_text :: string
  upd_preserve_bullets :: bool
  upd_table_cells :: "cell_update list"

record cell_result =
  cr_success :: bool
  cr_error :: "string option"
  cr_cell :: string

record update_result =
  success :: bool
  error :: "string option"
  result_warnings :: "string list"
  new_length :: "nat option"
  original_length :: "nat option"

record results =
  updates_applied :: nat
  errors :: "string list"
  warnings :: "string list"
  output_file :: "string option"

section \<open>The formatting snapshot\<close>

text \<open>
  \<^verbatim>\<open>update_table_cell\<close> (lines 50-83) and \<^verbatim>\<open>update_shape_text\<close> (lines 139-172)
  capture the original formatting with the same statements: six variables start as
  \<^verbatim>\<open>None\<close>; if the frame has paragraphs and the first one has runs, all six are read
  from the first run (the colour only when its type is set); then size, name, bold,
  italic and underline that are still \<^verbatim>\<open>None\<close> are read from the paragraph's font.
\<close>

record formatting =
  original_font_size :: "int option"
  original_font_name :: "string option"
  original_font_bold :: "bool option"
  original_font_italic :: "bool option"
  original_font_underline :: "underline option"
  original_font_color :: "color_format option"

definition no_formatting :: formatting where
  "no_formatting = \<lparr>original_font_size = None, original_font_name = None,
     original_font_bold = None, original_font_italic = None,
     original_font_underline = None, original_font_color = None\<rparr>"

definition if_none :: "'a option \<Rightarrow> 'a option \<Rightarrow> 'a option" where
  "if_none v fallback = (case v of None \<Rightarrow> fallback | Some x \<Rightarrow> Some x)"

definition capture_formatting :: "text_frame \<Rightarrow> formatting" where
  "capture_formatting text_frame =
     (case paragraphs text_frame of
        [] \<Rightarrow> no_formatting
      | first_para # _ \<Rightarrow>
          (let from_run =
                 (case runs first_para of
                    [] \<Rightarrow> no_formatting
                  | first_run # _ \<Rightarrow>
                      \<lparr>original_font_size = font_size (run_font first_run),
                       original_font_name = font_name (run_font first_run),
                       original_font_bold = font_bold (run_font first_run),
                       original_font_italic = font_italic (run_font first_run),
                       original_font_underline = font_underline (run_font first_run),
                       original_font_color = font_color (run_font first_run)\<rparr>)
           in from_run
                \<lparr>original_font_size :=
                   if_none (original_font_size from_run) (font_size (para_font first_para)),
                 original_font_name :=
                   if_none (original_font_name from_run) (font_name (para_font first_para)),
                 original_font_bold :=
                   if_none (original_font_bold from_run) (font_bold (para_font first_para)),
                 original_font_italic :=
                   if_none (original_font_italic from_run) (font_italic (para_font first_para)),
                 original_font_underline :=
                   if_none (original_font_underline from_run)
                     (font_underline (para_font first_para))\<rparr>))"

text \<open>
  The snapshot as the specification words it: each of the six fields, on its own, is
  the first run's value when the first paragraph has a run and the field is set on it,
  and the first paragraph's own font value otherwise.
\<close>

definition run_then_paragraph :: "(font \<Rightarrow> 'a option) \<Rightarrow> para \<Rightarrow> 'a option" where
  "run_then_paragraph field p =
     (case runs p of
        [] \<Rightarrow> field (para_font p)
      | first_run # _ \<Rightarrow>
          (case field (run_font first_run) of
             Some v \<Rightarrow> Some v
           | None \<Rightarrow> field (para_font p)))"

definition spec_snapshot :: "text_frame \<Rightarrow> formatting" where
  "spec_snapshot text_frame =
     (case paragraphs text_frame of
        [] \<Rightarrow> no_formatting
      | first_para # _ \<Rightarrow>
          \<lparr>original_font_size = run_then_paragraph font_size first_para,
           original_font_name = run_then_paragraph font_name first_para,
           original_font_bold = run_then_paragraph font_bold first_para,
           original_font_italic = run_then_paragraph font_italic first_para,
           original_font_underline = run_then_paragraph font_underline first_para,
           original_font_color = run_then_paragraph font_color first_para\<rparr>)"

section \<open>Reapplying the snapshot to a new run\<close>

text \<open>
  The five non-colour assignments, written out three times in \<^verbatim>\<open>update_shape_text\<close>
  and once in \<^verbatim>\<open>update_table_cell\<close>: size and name are tested for truth (a zero
  size and an empty name are skipped), the other three for \<^verbatim>\<open>None\<close>.
\<close>

definition apply_formatting :: "formatting \<Rightarrow> font \<Rightarrow> font" where
  "apply_formatting fmt f =
     (let f1 = (case original_font_size fmt of
                  Some s \<Rightarrow> if s \<noteq> 0 then f\<lparr>font_size := Some s\<rparr> else f
                | None \<Rightarrow> f);
          f2 = (case original_font_name fmt of
                  Some n \<Rightarrow> if n \<noteq> [] then f1\<lparr>font_name := Some n\<rparr> else f1
                | None \<Rightarrow> f1);
          f3 = (case original_font_bold fmt of
                  Some b \<Rightarrow> f2\<lparr>font_bold := Some b\<rparr>
                | None \<Rightarrow> f2);
          f4 = (case original_font_italic fmt of
                  Some i \<Rightarrow> f3\<lparr>font_italic := Some i\<rparr>
                | None \<Rightarrow> f3);
          f5 = (case original_font_underline fmt of
                  Some u \<Rightarrow> f4\<lparr>font_underline := Some u\<rparr>
                | None \<Rightarrow> f4)
      in f5)"

text \<open>
  Lines 200-208 and 228-236, the bullet branch: the RGB value when the colour has one,
  the theme index otherwise, inside \<^verbatim>\<open>try: ... except: pass\<close>. The result is the
  exception that was raised, if any, and the font as the statements executed before it
  left it; the \<^verbatim>\<open>except\<close> clause drops the exception and keeps the font.
\<close>

definition copy_color :: "color_format \<Rightarrow> font \<Rightarrow> exn option \<times> font" where
  "copy_color c f =
     (case color_rgb c of
        Some v \<Rightarrow>
          (case set_color_rgb (RGBColorVal v) f of
             Inl e \<Rightarrow> (Some e, f)
           | Inr f' \<Rightarrow> (None, f'))
      | None \<Rightarrow>
          (case color_theme_color c of
             Inl e \<Rightarrow> (Some e, f)
           | Inr idx \<Rightarrow> set_color_theme idx f))"

definition copy_color_or_skip :: "color_format option \<Rightarrow> font \<Rightarrow> font" where
  "copy_color_or_skip original_color f =
     (case original_color of
        None \<Rightarrow> f
      | Some c \<Rightarrow> snd (copy_color c f))"

text \<open>
  Lines 102-103 and 255-256, the table cell and the simple replacement:
  \<^verbatim>\<open>run.font.color.rgb = original_font_color\<close>, the colour object itself, with no
  \<^verbatim>\<open>try\<close> around it.
\<close>

definition assign_color :: "color_format option \<Rightarrow> font \<Rightarrow> exn + font" where
  "assign_color original_color f =
     (case original_color of
        None \<Rightarrow> Inr f
      | Some c \<Rightarrow> set_color_rgb (ColorFormatObj c) f)"

definition add_run :: "para \<Rightarrow> run \<Rightarrow> para" where
  "add_run p r = p\<lparr>runs := runs p @ [r]\<rparr>"

section \<open>update_shape_text\<close>

definition overflow_warning :: "nat \<Rightarrow> nat \<Rightarrow> string" where
  "overflow_warning n original =
     ''New text ('' @ str_nat n @ '' chars) is significantly longer than original (''
       @ str_nat original @ '' chars). May overflow shape.''"

text \<open>Lines 179-181: paragraphs are removed from the end while more than one is left.\<close>

function remove_trailing :: "para list \<Rightarrow> para list" where
  "remove_trailing ps = (if length ps > 1 then remove_trailing (butlast ps) else ps)"
  by pat_completeness auto
termination
  by (relation "measure length") auto

declare remove_trailing.simps [simp del]

text \<open>
  Lines 211-236: for each further line a paragraph is appended, given one run with the
  line, the level of the frame's first paragraph, and the snapshot.
\<close>

fun add_remaining :: "formatting \<Rightarrow> string list \<Rightarrow> para list \<Rightarrow> para list" where
  "add_remaining fmt [] ps = ps"
| "add_remaining fmt (line # lines) ps =
     (let p = new_paragraph;
          first = hd (ps @ [p]);
          run = new_run\<lparr>run_text := escape line\<rparr>;
          f = copy_color_or_skip (original_font_color fmt)
                (apply_formatting fmt (run_font run))
      in add_remaining fmt lines
           (ps @ [(add_run p (run\<lparr>run_font := f\<rparr>))\<lparr>level := level first\<rparr>]))"

text \<open>
  The two branches return the exception that escaped, if any, and the frame as the
  statements executed so far left it: Python mutates in place and an exception undoes
  nothing.
\<close>

definition replace_bullets :: "formatting \<Rightarrow> string \<Rightarrow> text_frame \<Rightarrow> exn option \<times> text_frame" where
  "replace_bullets fmt new_text text_frame =
     (let lines = split_nl new_text;
          tf1 = text_frame\<lparr>paragraphs := remove_trailing (paragraphs text_frame)\<rparr>
      in if lines \<noteq> [] then
           (case paragraphs tf1 of
              [] \<Rightarrow> (Some (IndexError ''tuple index out of range''), tf1)
            | first_para # rest \<Rightarrow>
                (let run = new_run\<lparr>run_text := escape (hd lines)\<rparr>;
                     f = copy_color_or_skip (original_font_color fmt)
                           (apply_formatting fmt (run_font run));
                     p = add_run (paragraph_clear first_para) (run\<lparr>run_font := f\<rparr>)
                 in (None, tf1\<lparr>paragraphs := add_remaining fmt (tl lines) (p # rest)\<rparr>)))
         else (None, tf1\<lparr>paragraphs := add_remaining fmt (tl lines) (paragraphs tf1)\<rparr>))"

definition replace_simple :: "formatting \<Rightarrow> string \<Rightarrow> text_frame \<Rightarrow> exn option \<times> text_frame" where
  "replace_simple fmt new_text text_frame =
     (case paragraphs text_frame of
        [] \<Rightarrow> (Some (IndexError ''tuple index out of range''), text_frame)
      | first_para # rest \<Rightarrow>
          (let run = new_run\<lparr>run_text := escape new_text\<rparr>;
               run1 = run\<lparr>run_font := apply_formatting fmt (run_font run)\<rparr>;
               cleared = paragraph_clear first_para
           in case assign_color (original_font_color fmt) (run_font run1) of
                Inl e \<Rightarrow> (Some e, text_frame\<lparr>paragraphs := add_run cleared run1 # rest\<rparr>)
              | Inr f \<Rightarrow>
                  (None, text_frame\<lparr>paragraphs :=
                            add_run cleared (run1\<lparr>run_font := f\<rparr>) # rest\<rparr>)))"

text \<open>
  The result is the exception that left the function or the returned dictionary, and
  the shape after the call. \<^verbatim>\<open>original_length * 1.5\<close> is a float product in Python;
  it is exact for every length a string can have, so the comparison is the one on
  rationals. The failure dictionary has no \<^verbatim>\<open>warnings\<close> key; the empty list stands
  for it.
\<close>

definition update_shape_text :: "shape \<Rightarrow> string \<Rightarrow> bool \<Rightarrow> bool \<Rightarrow> (exn + update_result) \<times> shape" where
  "update_shape_text shape new_text preserve_bullets warn_on_overflow =
     (case shape of
        TextShape text_frame \<Rightarrow>
          (let original = length (text_frame_text text_frame);
               ws = (if warn_on_overflow
                       \<and> (of_nat (length new_text) :: rat) > of_nat original * 1.5
                     then [overflow_warning (length new_text) original] else []);
               fmt = capture_formatting text_frame;
               (raised, tf') =
                 (if preserve_bullets \<and> NL \<in> set new_text
                  then replace_bullets fmt new_text text_frame
                  else replace_simple fmt new_text text_frame)
           in case raised of
                Some e \<Rightarrow> (Inl e, TextShape tf')
              | None \<Rightarrow>
                  (Inr \<lparr>success = True, error = None, result_warnings = ws,
                        new_length = Some (length new_text),
                        original_length = Some original\<rparr>,
                   TextShape tf'))
      | _ \<Rightarrow>
          (Inr \<lparr>success = False, error = Some ''Shape has no text frame'',
                result_warnings = [], new_length = None, original_length = None\<rparr>,
           shape))"

text \<open>\<^verbatim>\<open>extract_text_from_shape\<close> of extract_template_structure.py.\<close>

definition extract_text_from_shape :: "shape \<Rightarrow> string" where
  "extract_text_from_shape shape =
     (case shape of TextShape text_frame \<Rightarrow> text_frame_text text_frame | _ \<Rightarrow> [])"

section \<open>update_table_cell\<close>

text \<open>
  \<^verbatim>\<open>table.rows[row]\<close> and \<^verbatim>\<open>row.cells[col]\<close>: the library tests
  \<^verbatim>\<open>idx < 0 or idx >= len(...)\<close> and raises IndexError; the comparison itself raises
  TypeError when the index is not a number.
\<close>

definition not_supported :: "string \<Rightarrow> string \<Rightarrow> string" where
  "not_supported oper ty =
     [CHR 0x27] @ oper @ [CHR 0x27] @ '' not supported between instances of ''
       @ [CHR 0x27] @ ty @ [CHR 0x27] @ '' and '' @ [CHR 0x27] @ ''int'' @ [CHR 0x27]"

definition check_index :: "string \<Rightarrow> nat \<Rightarrow> json \<Rightarrow> exn + nat" where
  "check_index what n idx =
     (case idx of
        JNone \<Rightarrow> Inl (TypeError (not_supported ''<'' ''NoneType''))
      | JStr _ \<Rightarrow> Inl (TypeError (not_supported ''<'' ''str''))
      | JInt i \<Rightarrow>
          if i < 0 \<or> i \<ge> int n
          then Inl (IndexError (what @ '' index ['' @ str_int i @ ''] out of range''))
          else Inr (nat i))"

definition cell_failure :: "exn \<Rightarrow> json \<Rightarrow> json \<Rightarrow> cell_result" where
  "cell_failure e row col =
     \<lparr>cr_success = False, cr_error = Some (str_exn e),
      cr_cell = ''('' @ str_json row @ '','' @ str_json col @ '')''\<rparr>"

definition set_cell :: "table \<Rightarrow> nat \<Rightarrow> nat \<Rightarrow> text_frame \<Rightarrow> table" where
  "set_cell table i j tf = table\<lparr>rows := (rows table)[i := (rows table ! i)[j := tf]]\<rparr>"

text \<open>
  The whole body is inside \<^verbatim>\<open>try: ... except Exception\<close>, so the function always
  returns a dictionary; the table is returned as the statements executed before the
  exception left it.
\<close>

definition update_table_cell :: "table \<Rightarrow> json \<Rightarrow> json \<Rightarrow> string \<Rightarrow> cell_result \<times> table" where
  "update_table_cell table row col new_text =
     (case check_index ''row'' (length (rows table)) row of
        Inl e \<Rightarrow> (cell_failure e row col, table)
      | Inr i \<Rightarrow>
          (case check_index ''cell'' (length (rows table ! i)) col of
             Inl e \<Rightarrow> (cell_failure e row col, table)
           | Inr j \<Rightarrow>
               (let text_frame = rows table ! i ! j;
                    fmt = capture_formatting text_frame
                in case text_frame_clear text_frame of
                     Inl e \<Rightarrow> (cell_failure e row col, table)
                   | Inr tf1 \<Rightarrow>
                       (case paragraphs tf1 of
                          [] \<Rightarrow>
                            (cell_failure (IndexError ''tuple index out of range'') row col,
                             set_cell table i j tf1)
                        | p # rest \<Rightarrow>
                            (let run = new_run\<lparr>run_text := escape new_text\<rparr>;
                                 run1 = run\<lparr>run_font := apply_formatting fmt (run_font run)\<rparr>
                             in case assign_color (original_font_color fmt) (run_font run1) of
                                  Inl e \<Rightarrow>
                                    (cell_failure e row col,
                                     set_cell table i j
                                       (tf1\<lparr>paragraphs := add_run p run1 # rest\<rparr>))
                                | Inr f \<Rightarrow>
                                    (\<lparr>cr_success = True, cr_error = None,
                                      cr_cell = ''('' @ str_json row @ '','' @ str_json col
                                                  @ '')''\<rparr>,
                                     set_cell table i j
                                       (tf1\<lparr>paragraphs :=
                                               add_run p (run1\<lparr>run_font := f\<rparr>) # rest\<rparr>)))))))"

section \<open>apply_updates\<close>

definition str_option :: "string option \<Rightarrow> string" where
  "str_option v = (case v of None \<Rightarrow> ''None'' | Some s \<Rightarrow> s)"

definition cell_error_entry :: "int \<Rightarrow> int \<Rightarrow> cell_result \<Rightarrow> string" where
  "cell_error_entry slide_num shape_idx cell_result =
     ''Slide '' @ str_int slide_num @ '', Shape '' @ str_int shape_idx @ '', Cell ''
       @ cr_cell cell_result @ '': '' @ str_option (cr_error cell_result)"

text \<open>Lines 308-320: the loop over the cell entries of one instruction.\<close>

fun update_cells :: "int \<Rightarrow> int \<Rightarrow> cell_update list \<Rightarrow> results \<times> table \<Rightarrow> results \<times> table" where
  "update_cells slide_num shape_idx [] state = state"
| "update_cells slide_num shape_idx (cell_update # rest) (res, table) =
     (let (cell_result, table') =
            update_table_cell table (cu_row cell_update) (cu_column cell_update)
              (cu_text cell_update)
      in update_cells slide_num shape_idx rest
           (if cr_success cell_result
            then res\<lparr>updates_applied := updates_applied res + 1\<rparr>
            else res\<lparr>errors := errors res
                        @ [cell_error_entry slide_num shape_idx cell_result]\<rparr>,
            table'))"

definition invalid_slide_entry :: "int \<Rightarrow> nat \<Rightarrow> string" where
  "invalid_slide_entry slide_num n =
     ''Invalid slide number: '' @ str_int slide_num @ ''. Template has '' @ str_nat n
       @ '' slides.''"

definition invalid_shape_entry :: "int \<Rightarrow> int \<Rightarrow> nat \<Rightarrow> string" where
  "invalid_shape_entry shape_idx slide_num n =
     ''Invalid shape index: '' @ str_int shape_idx @ '' on slide '' @ str_int slide_num
       @ ''. Slide has '' @ str_nat n @ '' shapes.''"

definition shape_prefix :: "int \<Rightarrow> int \<Rightarrow> string" where
  "shape_prefix slide_num shape_idx =
     ''Slide '' @ str_int slide_num @ '', Shape '' @ str_int shape_idx @ '': ''"

definition set_shape :: "presentation \<Rightarrow> nat \<Rightarrow> nat \<Rightarrow> shape \<Rightarrow> presentation" where
  "set_shape prs si hi sh = prs\<lparr>slides := (slides prs)[si := (slides prs ! si)[hi := sh]]\<rparr>"

text \<open>Lines 324-340: the regular text update of one shape and its bookkeeping.\<close>

definition regular_update :: "int \<Rightarrow> int \<Rightarrow> update \<Rightarrow> shape \<Rightarrow> results \<Rightarrow> exn + results \<times> shape" where
  "regular_update slide_num shape_idx update shape res =
     (case update_shape_text shape (upd_text update) (upd_preserve_bullets update) True of
        (Inl e, _) \<Rightarrow> Inl e
      | (Inr update_result, shape') \<Rightarrow>
          Inr (if success update_result
               then res\<lparr>updates_applied := updates_applied res + 1,
                        warnings := warnings res
                          @ map (\<lambda>w. shape_prefix slide_num shape_idx @ w)
                              (result_warnings update_result)\<rparr>
               else res\<lparr>errors := errors res
                           @ [shape_prefix slide_num shape_idx
                                @ str_option (error update_result)]\<rparr>,
               shape'))"

text \<open>
  One pass of the loop of \<^verbatim>\<open>apply_updates\<close> (lines 278-340). The comparisons
  \<^verbatim>\<open>slide_num < 1\<close> and \<^verbatim>\<open>shape_idx < 1\<close> raise TypeError on a missing or
  non-numeric field; nothing in the loop catches it.
\<close>

definition apply_update :: "update \<Rightarrow> results \<times> presentation \<Rightarrow> exn + results \<times> presentation" where
  "apply_update update state =
     (case state of (res, prs) \<Rightarrow>
        (case upd_slide update of
           JNone \<Rightarrow> Inl (TypeError (not_supported ''<'' ''NoneType''))
         | JStr _ \<Rightarrow> Inl (TypeError (not_supported ''<'' ''str''))
         | JInt slide_num \<Rightarrow>
             if slide_num < 1 \<or> slide_num > int (length (slides prs)) then
               Inr (res\<lparr>errors := errors res
                          @ [invalid_slide_entry slide_num (length (slides prs))]\<rparr>, prs)
             else
               (let si = nat (slide_num - 1); slide = slides prs ! si
                in case upd_shape update of
                     JNone \<Rightarrow> Inl (TypeError (not_supported ''<'' ''NoneType''))
                   | JStr _ \<Rightarrow> Inl (TypeError (not_supported ''<'' ''str''))
                   | JInt shape_idx \<Rightarrow>
                       if shape_idx < 1 \<or> shape_idx > int (length slide) then
                         Inr (res\<lparr>errors := errors res
                                    @ [invalid_shape_entry shape_idx slide_num
                                         (length slide)]\<rparr>, prs)
                       else
                         (let hi = nat (shape_idx - 1);
                              shape = slide ! hi;
                              regular =
                                (case regular_update slide_num shape_idx update shape res of
                                   Inl e \<Rightarrow> Inl e
                                 | Inr (res', shape') \<Rightarrow>
                                     Inr (res', set_shape prs si hi shape'))
                          in case shape of
                               TableShape table \<Rightarrow>
                                 if upd_table_cells update \<noteq> [] then
                                   (let (res', table') =
                                          update_cells slide_num shape_idx
                                            (upd_table_cells update) (res, table)
                                    in Inr (res', set_shape prs si hi (TableShape table')))
                                 else regular
                             | _ \<Rightarrow> regular))))"

fun apply_updates_loop :: "update list \<Rightarrow> results \<times> presentation \<Rightarrow> exn + results \<times> presentation" where
  "apply_updates_loop [] state = Inr state"
| "apply_updates_loop (update # rest) state =
     (case apply_update update state of
        Inl e \<Rightarrow> Inl e
      | Inr state' \<Rightarrow> apply_updates_loop rest state')"

text \<open>
  \<^verbatim>\<open>apply_updates\<close> on the presentation loaded from the template path. The result is
  the exception that escaped (nothing is saved then) or the report and the saved
  presentation.
\<close>

definition apply_updates :: "presentation \<Rightarrow> update list \<Rightarrow> string \<Rightarrow> exn + results \<times> presentation" where
  "apply_updates prs updates output_path =
     (case apply_updates_loop updates
             (\<lparr>updates_applied = 0, errors = [], warnings = [], output_file = None\<rparr>, prs) of
        Inl e \<Rightarrow> Inl e
      | Inr (res, prs') \<Rightarrow> Inr (res\<lparr>output_file := Some output_path\<rparr>, prs'))"

section \<open>Auxiliary definitions for the properties\<close>

text \<open>
  The paragraph that the bullet branch builds for one line: a single run holding the
  line, formatted from the snapshot, at the given outline level.
\<close>

definition bullet_para :: "formatting \<Rightarrow> nat \<Rightarrow> string \<Rightarrow> para" where
  "bullet_para fmt lvl line =
     \<lparr>runs = [\<lparr>run_text = escape line,
               run_font = copy_color_or_skip (original_font_color fmt)
                            (apply_formatting fmt default_font)\<rparr>],
      level = lvl, para_font = default_font\<rparr>"


text \<open>A frame with one paragraph: a red 12-unit run at outline level 1.\<close>

definition example_frame :: text_frame where
  "example_frame =
     \<lparr>paragraphs =
        [\<lparr>runs = [\<lparr>run_text = ''Old text'',
                    run_font = default_font\<lparr>font_size := Some 12,
                      font_color := Some (SRgbColor (RGBColor 255 0 0))\<rparr>\<rparr>],
          level = 1, para_font = default_font\<rparr>]\<rparr>"


text \<open>
  A frame whose only paragraph has no runs and sets size and colour on its own font,
  and a frame whose run sets bold only while the paragraph font sets size, bold and
  colour.
\<close>

definition paragraph_colour_frame :: text_frame where
  "paragraph_colour_frame =
     \<lparr>paragraphs =
        [\<lparr>runs = [], level = 0,
          para_font = default_font\<lparr>font_size := Some 18,
            font_color := Some (SRgbColor (RGBColor 0 0 255))\<rparr>\<rparr>]\<rparr>"

definition mixed_frame :: text_frame where
  "mixed_frame =
     \<lparr>paragraphs =
        [\<lparr>runs = [\<lparr>run_text = ''Title'',
                    run_font = default_font\<lparr>font_bold := Some True\<rparr>\<rparr>],
          level = 0,
          para_font = default_font\<lparr>font_size := Some 18, font_bold := Some False,
            font_color := Some (SRgbColor (RGBColor 0 0 255))\<rparr>\<rparr>]\<rparr>"

text \<open>
  The first paragraph after the simple replacement: its properties kept, its content one
  run with the new text and the non-colour formatting of the snapshot.
\<close>

definition simple_para :: "formatting \<Rightarrow> para \<Rightarrow> string \<Rightarrow> para" where
  "simple_para fmt p new_text =
     p\<lparr>runs := [\<lparr>run_text = escape new_text,
                  run_font = apply_formatting fmt default_font\<rparr>]\<rparr>"

text \<open>The paragraphs of a shape; none when it has no text frame.\<close>

definition shape_paragraphs :: "shape \<Rightarrow> para list" where
  "shape_paragraphs shape = (case shape of TextShape tf \<Rightarrow> paragraphs tf | _ \<Rightarrow> [])"

text \<open>Frames and an instruction for the examples.\<close>

definition ten_frame :: text_frame where
  "ten_frame =
     \<lparr>paragraphs =
        [\<lparr>runs = [\<lparr>run_text = ''0123456789'', run_font = default_font\<rparr>],
          level = 0, para_font = default_font\<rparr>]\<rparr>"

definition two_paragraph_frame :: text_frame where
  "two_paragraph_frame =
     \<lparr>paragraphs =
        [\<lparr>runs = [\<lparr>run_text = ''Heading'', run_font = default_font\<rparr>],
          level = 0, para_font = default_font\<rparr>,
         \<lparr>runs = [\<lparr>run_text = ''Detail'',
                    run_font = default_font\<lparr>font_italic := Some True\<rparr>\<rparr>],
          level = 1, para_font = default_font\<rparr>]\<rparr>"

definition title_update :: update where
  "title_update = \<lparr>upd_slide = JInt 1, upd_shape = JInt 1, upd_text = ''New title'',
     upd_preserve_bullets = True, upd_table_cells = []\<rparr>"

definition sixteen_update :: update where
  "sixteen_update = \<lparr>upd_slide = JInt 1, upd_shape = JInt 1,
     upd_text = ''0123456789abcdef'', upd_preserve_bullets = True, upd_table_cells = []\<rparr>"

text \<open>What the index checks of the dispatcher read: the number of shapes of every slide.\<close>

definition shape_counts :: "presentation \<Rightarrow> nat list" where
  "shape_counts prs = map length (slides prs)"

text \<open>The text \<^verbatim>\<open>extract_text_from_shape\<close> reads from every shape of every slide.\<close>

definition extracted_texts :: "presentation \<Rightarrow> string list list" where
  "extracted_texts prs = map (map extract_text_from_shape) (slides prs)"

text \<open>A report with further error entries in front of its own, and a loop state with such a report.\<close>

definition prefix_errors :: "string list \<Rightarrow> results \<Rightarrow> results" where
  "prefix_errors es r = r\<lparr>errors := es @ errors r\<rparr>"

definition prefix_state :: "string list \<Rightarrow> results \<times> 'a \<Rightarrow> results \<times> 'a" where
  "prefix_state es state = (prefix_errors es (fst state), snd state)"

text \<open>
  The instructions of claim C4: the slide field is an integer outside
  \<^verbatim>\<open>[1, slide_count]\<close>, or it is inside and the shape field is an integer outside
  \<^verbatim>\<open>[1, shape_count_on_slide]\<close>; and the error entry the dispatcher writes for them.
\<close>

definition slide_out_of_range :: "presentation \<Rightarrow> update \<Rightarrow> bool" where
  "slide_out_of_range prs u =
     (case upd_slide u of
        JInt n \<Rightarrow> n < 1 \<or> int (length (slides prs)) < n
      | _ \<Rightarrow> False)"

definition slide_in_range :: "presentation \<Rightarrow> update \<Rightarrow> bool" where
  "slide_in_range prs u =
     (case upd_slide u of
        JInt n \<Rightarrow> 1 \<le> n \<and> n \<le> int (length (slides prs))
      | _ \<Rightarrow> False)"

definition json_int :: "json \<Rightarrow> int" where
  "json_int v = (case v of JInt i \<Rightarrow> i | _ \<Rightarrow> 0)"

definition shape_count_on_slide :: "presentation \<Rightarrow> update \<Rightarrow> nat" where
  "shape_count_on_slide prs u = length (slides prs ! nat (json_int (upd_slide u) - 1))"

definition shape_out_of_range :: "presentation \<Rightarrow> update \<Rightarrow> bool" where
  "shape_out_of_range prs u =
     (slide_in_range prs u \<and>
      (case upd_shape u of
         JInt m \<Rightarrow> m < 1 \<or> int (shape_count_on_slide prs u) < m
       | _ \<Rightarrow> False))"

definition index_error_entry :: "presentation \<Rightarrow> update \<Rightarrow> string" where
  "index_error_entry prs u =
     (if slide_out_of_range prs u
      then invalid_slide_entry (json_int (upd_slide u)) (length (slides prs))
      else invalid_shape_entry (json_int (upd_shape u)) (json_int (upd_slide u))
             (shape_count_on_slide prs u))"

text \<open>The report \<^verbatim>\<open>apply_updates\<close> starts from.\<close>

definition initial_results :: results where
  "initial_results = \<lparr>updates_applied = 0, errors = [], warnings = [], output_file = None\<rparr>"

text \<open>A presentation of one slide with a text shape and a picture, and instructions for it.\<close>

definition one_slide :: presentation where
  "one_slide = \<lparr>slides = [[TextShape ten_frame, OtherShape]]\<rparr>"

definition hello_update :: update where
  "hello_update = \<lparr>upd_slide = JInt 1, upd_shape = JInt 1, upd_text = ''Hello'',
     upd_preserve_bullets = True, upd_table_cells = []\<rparr>"

definition goodbye_update :: update where
  "goodbye_update = \<lparr>upd_slide = JInt 1, upd_shape = JInt 1, upd_text = ''Goodbye'',
     upd_preserve_bullets = False, upd_table_cells = []\<rparr>"

definition slide_five_update :: update where
  "slide_five_update = \<lparr>upd_slide = JInt 5, upd_shape = JInt 1, upd_text = ''Lost'',
     upd_preserve_bullets = True, upd_table_cells = []\<rparr>"

text \<open>
  The malformed instructions of claim C9 that the model has: the slide field is missing
  or a string, or the slide index is in range and the shape field is missing or a
  string; and the Python type named in the TypeError they cause.
\<close>

definition malformed_target :: "presentation \<Rightarrow> update \<Rightarrow> bool" where
  "malformed_target prs u =
     (case upd_slide u of
        JInt n \<Rightarrow>
          slide_in_range prs u \<and> (case upd_shape u of JInt m \<Rightarrow> False | _ \<Rightarrow> True)
      | _ \<Rightarrow> True)"

definition offending_type :: "update \<Rightarrow> string" where
  "offending_type u =
     (case upd_slide u of
        JNone \<Rightarrow> ''NoneType''
      | JStr _ \<Rightarrow> ''str''
      | JInt _ \<Rightarrow> (case upd_shape u of JNone \<Rightarrow> ''NoneType'' | _ \<Rightarrow> ''str''))"

text \<open>An instruction without a slide field.\<close>

definition missing_slide_update :: update where
  "missing_slide_update = \<lparr>upd_slide = JNone, upd_shape = JInt 1, upd_text = ''Lost'',
     upd_preserve_bullets = True, upd_table_cells = []\<rparr>"

text \<open>
  What kind of shape stands at each place. No update changes it: a text shape stays a
  text shape, a table a table.
\<close>

datatype shape_kind = TextKind | TableKind | OtherKind

fun kind_of :: "shape \<Rightarrow> shape_kind" where
  "kind_of (TextShape _) = TextKind"
| "kind_of (TableShape _) = TableKind"
| "kind_of OtherShape = OtherKind"

definition shape_kinds :: "presentation \<Rightarrow> shape_kind list list" where
  "shape_kinds prs = map (map kind_of) (slides prs)"

text \<open>
  The instructions of claim C10: both indices are integers in range and the shape they
  resolve to has no text frame, being neither a text shape nor a table addressed with
  cell entries; and the error entry the dispatcher writes for them.
\<close>

definition target_in_range :: "presentation \<Rightarrow> update \<Rightarrow> bool" where
  "target_in_range prs u =
     (slide_in_range prs u \<and>
      (case upd_shape u of
         JInt m \<Rightarrow> 1 \<le> m \<and> m \<le> int (shape_count_on_slide prs u)
       | _ \<Rightarrow> False))"

definition target_shape :: "presentation \<Rightarrow> update \<Rightarrow> shape" where
  "target_shape prs u =
     slides prs ! nat (json_int (upd_slide u) - 1) ! nat (json_int (upd_shape u) - 1)"

definition no_text_frame_target :: "presentation \<Rightarrow> update \<Rightarrow> bool" where
  "no_text_frame_target prs u =
     (target_in_range prs u \<and>
      (case target_shape prs u of
         TextShape _ \<Rightarrow> False
       | TableShape _ \<Rightarrow> upd_table_cells u = []
       | OtherShape \<Rightarrow> True))"

definition no_text_frame_entry :: "update \<Rightarrow> string" where
  "no_text_frame_entry u =
     ''Slide '' @ str_json (upd_slide u) @ '', Shape '' @ str_json (upd_shape u)
       @ '': Shape has no text frame''"

text \<open>A table of one row and two cells, a slide holding it, and instructions for the examples.\<close>

definition small_table :: table where
  "small_table =
     \<lparr>rows = [[\<lparr>paragraphs = [\<lparr>runs = [\<lparr>run_text = ''Q1'', run_font = default_font\<rparr>],
                                   level = 0, para_font = default_font\<rparr>]\<rparr>,
               \<lparr>paragraphs = [\<lparr>runs = [\<lparr>run_text = ''Q2'', run_font = default_font\<rparr>],
                                   level = 0, para_font = default_font\<rparr>]\<rparr>]]\<rparr>"

definition table_slide :: presentation where
  "table_slide = \<lparr>slides = [[TextShape ten_frame, OtherShape, TableShape small_table]]\<rparr>"

definition picture_update :: update where
  "picture_update = \<lparr>upd_slide = JInt 1, upd_shape = JInt 2, upd_text = ''Caption'',
     upd_preserve_bullets = True, upd_table_cells = []\<rparr>"

definition table_text_update :: update where
  "table_text_update = \<lparr>upd_slide = JInt 1, upd_shape = JInt 3, upd_text = ''Totals'',
     upd_preserve_bullets = True, upd_table_cells = []\<rparr>"

text \<open>The number of cells of every row of a table; no cell update changes it.\<close>

definition table_dims :: "table \<Rightarrow> nat list" where
  "table_dims t = map length (rows t)"

text \<open>
  A cell entry whose row is an integer outside the table's rows, or whose row is inside
  and whose column is an integer outside that row's cells; the message of the IndexError
  it causes; the reference \<^verbatim>\<open>(row,col)\<close> and the error entry of a cell.
\<close>

definition cell_out_of_range :: "table \<Rightarrow> cell_update \<Rightarrow> bool" where
  "cell_out_of_range t c =
     (case cu_row c of
        JInt i \<Rightarrow>
          if i < 0 \<or> int (length (rows t)) \<le> i then True
          else (case cu_column c of
                  JInt j \<Rightarrow> j < 0 \<or> int (length (rows t ! nat i)) \<le> j
                | _ \<Rightarrow> False)
      | _ \<Rightarrow> False)"

definition out_of_range_message :: "table \<Rightarrow> cell_update \<Rightarrow> string" where
  "out_of_range_message t c =
     (if json_int (cu_row c) < 0 \<or> int (length (rows t)) \<le> json_int (cu_row c)
      then ''row index ['' @ str_int (json_int (cu_row c)) @ ''] out of range''
      else ''cell index ['' @ str_int (json_int (cu_column c)) @ ''] out of range'')"

definition cell_ref :: "cell_update \<Rightarrow> string" where
  "cell_ref c = ''('' @ str_json (cu_row c) @ '','' @ str_json (cu_column c) @ '')''"

definition cell_entry :: "int \<Rightarrow> int \<Rightarrow> cell_update \<Rightarrow> string \<Rightarrow> string" where
  "cell_entry n m c msg =
     ''Slide '' @ str_int n @ '', Shape '' @ str_int m @ '', Cell '' @ cell_ref c
       @ '': '' @ msg"

text \<open>Cell entries for the one-row table and a fan-out instruction with a bad column in the middle.\<close>

definition north_cell :: cell_update where
  "north_cell = \<lparr>cu_row = JInt 0, cu_column = JInt 0, cu_text = ''North''\<rparr>"

definition lost_cell :: cell_update where
  "lost_cell = \<lparr>cu_row = JInt 0, cu_column = JInt 5, cu_text = ''Lost''\<rparr>"

definition south_cell :: cell_update where
  "south_cell = \<lparr>cu_row = JInt 0, cu_column = JInt 1, cu_text = ''South''\<rparr>"

definition fan_out_update :: update where
  "fan_out_update = \<lparr>upd_slide = JInt 1, upd_shape = JInt 3, upd_text = [],
     upd_preserve_bullets = True, upd_table_cells = [north_cell, lost_cell, south_cell]\<rparr>"

section \<open>Lemmas about the helpers\<close>


lemma split_nl_not_empty: "split_nl s \<noteq> []"
  by (induction s) auto

lemma split_nl_chars: "l \<in> set (split_nl s) \<Longrightarrow> set l \<subseteq> set s"
proof (induction s arbitrary: l)
  case Nil
  then show ?case by simp
next
  case (Cons c cs)
  have ne: "split_nl cs = hd (split_nl cs) # tl (split_nl cs)"
    using split_nl_not_empty [of cs] by simp
  have hd_in: "hd (split_nl cs) \<in> set (split_nl cs)"
    using split_nl_not_empty [of cs] by simp
  have tl_in: "\<And>x. x \<in> set (tl (split_nl cs)) \<Longrightarrow> x \<in> set (split_nl cs)"
    by (metis list.set_sel(2) split_nl_not_empty)
  show ?case
  proof (cases "c = NL")
    case True
    with Cons show ?thesis by auto
  next
    case False
    with Cons.prems have "l = c # hd (split_nl cs) \<or> l \<in> set (tl (split_nl cs))"
      by simp
    then show ?thesis
      using Cons.IH hd_in tl_in by (elim disjE) (simp_all, blast+)
  qed
qed

lemma escape_plain: "\<forall>c \<in> set s. \<not> is_control c \<Longrightarrow> escape s = s"
  by (induction s) (simp_all add: escape_def escape_char_def)

lemma remove_trailing_take: "remove_trailing ps = take 1 ps"
proof (induction ps rule: remove_trailing.induct)
  case (1 ps)
  show ?case
  proof (cases "length ps > 1")
    case True
    then have "take 1 (butlast ps) = take 1 ps"
      by (cases ps) (auto simp: take_butlast)
    with 1 True show ?thesis
      by (subst remove_trailing.simps) simp
  next
    case False
    then show ?thesis
      by (subst remove_trailing.simps) (cases ps, auto)
  qed
qed

lemma add_remaining_append:
  "ps \<noteq> [] \<Longrightarrow>
   add_remaining fmt ls ps = ps @ map (bullet_para fmt (level (hd ps))) ls"
proof (induction ls arbitrary: ps)
  case Nil
  then show ?case by simp
next
  case (Cons l ls)
  have step: "add_remaining fmt (l # ls) ps
      = add_remaining fmt ls (ps @ [bullet_para fmt (level (hd ps)) l])"
    using Cons.prems
    by (simp add: Let_def bullet_para_def add_run_def new_paragraph_def new_run_def)
  show ?case
    using Cons.prems by (simp only: step) (simp add: Cons.IH)
qed

lemma replace_bullets_result:
  assumes "paragraphs tf = p # rest"
  shows "replace_bullets fmt new_text tf =
           (None, tf\<lparr>paragraphs :=
              bullet_para fmt (level p) (hd (split_nl new_text))\<lparr>para_font := para_font p\<rparr>
                # map (bullet_para fmt (level p)) (tl (split_nl new_text))\<rparr>)"
  using assms
  by (simp add: replace_bullets_def Let_def split_nl_not_empty remove_trailing_take
      add_remaining_append bullet_para_def add_run_def paragraph_clear_def new_run_def)

section \<open>Bullet-preserving replacement\<close>

text \<open>
  C1, as stated, fails on a line with a control character: the run holds the escaped
  line, not the line. With \<^verbatim>\<open>"A\r\nB"\<close> the pieces are \<^verbatim>\<open>"A\r"\<close> and \<^verbatim>\<open>"B"\<close>, and
  the first run reads \<^verbatim>\<open>A_x000D_\<close>.
\<close>

theorem bullet_mode_control_character_counterexample:
  "NL \<in> set (''A'' @ [CHR 0x0D, NL] @ ''B'')
   \<and> paragraphs example_frame \<noteq> []
   \<and> split_nl (''A'' @ [CHR 0x0D, NL] @ ''B'') = [''A'' @ [CHR 0x0D], ''B'']
   \<and> map (map run_text \<circ> runs)
        (case snd (update_shape_text (TextShape example_frame)
                     (''A'' @ [CHR 0x0D, NL] @ ''B'') True True) of
           TextShape tf \<Rightarrow> paragraphs tf
         | _ \<Rightarrow> [])
       = [[''A_x000D_''], [''B'']]"
proof -
  define t where "t = ''A'' @ [CHR 0x0D, NL] @ ''B''"
  have ps: "paragraphs example_frame = hd (paragraphs example_frame) # []"
    by (simp add: example_frame_def)
  have sp: "split_nl t = [''A'' @ [CHR 0x0D], ''B'']"
    by (simp add: t_def NL_def)
  have nl: "NL \<in> set t" by (simp add: t_def)
  have rb: "snd (replace_bullets (capture_formatting example_frame) t example_frame)
      = example_frame\<lparr>paragraphs :=
          [bullet_para (capture_formatting example_frame)
             (level (hd (paragraphs example_frame))) (''A'' @ [CHR 0x0D])
             \<lparr>para_font := para_font (hd (paragraphs example_frame))\<rparr>,
           bullet_para (capture_formatting example_frame)
             (level (hd (paragraphs example_frame))) ''B'']\<rparr>"
    by (simp only: replace_bullets_result [OF ps] sp) simp
  have call: "snd (update_shape_text (TextShape example_frame) t True True)
      = TextShape (snd (replace_bullets (capture_formatting example_frame) t example_frame))"
    using nl
    by (simp add: update_shape_text_def Let_def replace_bullets_result [OF ps]
        del: split_nl.simps)
  have "map (map run_text \<circ> runs)
        (case snd (update_shape_text (TextShape example_frame) t True True) of
           TextShape tf \<Rightarrow> paragraphs tf
         | _ \<Rightarrow> [])
       = [[''A_x000D_''], [''B'']]"
    by (simp only: call rb)
       (simp add: bullet_para_def escape_def escape_char_def is_control_def hex_digit_def)
  moreover have "paragraphs example_frame \<noteq> []"
    by (simp add: example_frame_def)
  ultimately show ?thesis
    using nl sp unfolding t_def by blast
qed

text \<open>
  C1, amended. When \<^verbatim>\<open>preserve_bullets\<close> is true and the new text contains a line
  feed, the update of a shape whose frame has a first paragraph returns success, and the
  frame then holds exactly one paragraph per piece of \<^verbatim>\<open>new_text.split('\n')\<close>, in
  order, each with a single run whose text is that piece with its control characters
  escaped as \<^verbatim>\<open>_xHHHH_\<close>; when the new text has no such control character, each run
  text is the piece itself. The first paragraph keeps its outline level and every later
  paragraph has the level of the first.
\<close>

theorem bullet_mode_one_paragraph_per_line:
  assumes "NL \<in> set new_text" and "paragraphs text_frame \<noteq> []"
  shows "\<exists>res tf'.
     update_shape_text (TextShape text_frame) new_text True warn = (Inr res, TextShape tf')
     \<and> success res
     \<and> map (\<lambda>p. map run_text (runs p)) (paragraphs tf')
           = map (\<lambda>line. [escape line]) (split_nl new_text)
     \<and> ((\<forall>c \<in> set new_text. \<not> is_control c) \<longrightarrow>
          map (\<lambda>p. map run_text (runs p)) (paragraphs tf')
            = map (\<lambda>line. [line]) (split_nl new_text))
     \<and> level (hd (paragraphs tf')) = level (hd (paragraphs text_frame))
     \<and> (\<forall>p \<in> set (tl (paragraphs tf')). level p = level (hd (paragraphs tf')))"
proof -
  from assms(2) obtain p rest where ps: "paragraphs text_frame = p # rest"
    by (cases "paragraphs text_frame") auto
  let ?fmt = "capture_formatting text_frame"
  let ?lines = "split_nl new_text"
  let ?tf' = "text_frame\<lparr>paragraphs :=
      bullet_para ?fmt (level p) (hd ?lines)\<lparr>para_font := para_font p\<rparr>
        # map (bullet_para ?fmt (level p)) (tl ?lines)\<rparr>"
  have rb: "replace_bullets ?fmt new_text text_frame = (None, ?tf')"
    using ps by (rule replace_bullets_result)
  have call: "\<exists>res. update_shape_text (TextShape text_frame) new_text True warn
                  = (Inr res, TextShape ?tf') \<and> success res"
    using assms(1) by (simp add: update_shape_text_def Let_def rb)
  have lines: "?lines = hd ?lines # tl ?lines"
    using split_nl_not_empty [of new_text] by simp
  have texts: "map (\<lambda>p. map run_text (runs p)) (paragraphs ?tf')
                 = map (\<lambda>line. [escape line]) ?lines"
    by (subst (3) lines) (simp add: bullet_para_def comp_def)
  have plain: "(\<forall>c \<in> set new_text. \<not> is_control c) \<longrightarrow>
          map (\<lambda>p. map run_text (runs p)) (paragraphs ?tf')
            = map (\<lambda>line. [line]) ?lines"
  proof
    assume no: "\<forall>c \<in> set new_text. \<not> is_control c"
    have "\<And>l. l \<in> set ?lines \<Longrightarrow> escape l = l"
      using no split_nl_chars by (intro escape_plain) blast
    then have "map (\<lambda>line. [escape line]) ?lines = map (\<lambda>line. [line]) ?lines"
      by simp
    with texts show "map (\<lambda>p. map run_text (runs p)) (paragraphs ?tf')
            = map (\<lambda>line. [line]) ?lines"
      by simp
  qed
  have lvl0: "level (hd (paragraphs ?tf')) = level (hd (paragraphs text_frame))"
    by (simp add: ps bullet_para_def)
  have lvls: "\<forall>q \<in> set (tl (paragraphs ?tf')). level q = level (hd (paragraphs ?tf'))"
    by (auto simp: bullet_para_def)
  from call texts plain lvl0 lvls show ?thesis by blast
qed

text \<open>
  The instance of the specification: \<^verbatim>\<open>"A\nB\nC"\<close> on a shape with one paragraph
  gives three paragraphs with the run texts A, B and C.
\<close>

theorem bullet_mode_three_lines_witness:
  "NL \<in> set ''A\<newline>B\<newline>C'' \<and> paragraphs example_frame \<noteq> []
   \<and> (\<exists>res tf'.
        update_shape_text (TextShape example_frame) ''A\<newline>B\<newline>C'' True True
          = (Inr res, TextShape tf')
        \<and> success res
        \<and> map (\<lambda>p. map run_text (runs p)) (paragraphs tf') = [[''A''], [''B''], [''C'']]
        \<and> level (hd (paragraphs tf')) = 1
        \<and> (\<forall>p \<in> set (tl (paragraphs tf')). level p = level (hd (paragraphs tf'))))"
proof -
  have h1: "NL \<in> set ''A\<newline>B\<newline>C''" by (simp add: NL_def)
  have h2: "paragraphs example_frame \<noteq> []" by (simp add: example_frame_def)
  have s: "split_nl ''A\<newline>B\<newline>C'' = [''A'', ''B'', ''C'']" by (simp add: NL_def)
  have l: "level (hd (paragraphs example_frame)) = 1" by (simp add: example_frame_def)
  have e: "escape ''A'' = ''A''" "escape ''B'' = ''B''" "escape ''C'' = ''C''"
    by (simp_all add: escape_def escape_char_def is_control_def)
  note r = bullet_mode_one_paragraph_per_line [OF h1 h2, of True, unfolded s l]
  from r obtain res tf' where
    "update_shape_text (TextShape example_frame) ''A\<newline>B\<newline>C'' True True
          = (Inr res, TextShape tf')"
    "success res"
    "map (\<lambda>p. map run_text (runs p)) (paragraphs tf')
       = map (\<lambda>line. [escape line]) [''A'', ''B'', ''C'']"
    "level (hd (paragraphs tf')) = 1"
    "\<forall>p \<in> set (tl (paragraphs tf')). level p = level (hd (paragraphs tf'))"
    by blast
  with h1 h2 show ?thesis by (simp add: e)
qed

section \<open>The snapshot's fallback\<close>

text \<open>
  C2, as stated, fails for the colour: the code never reads the paragraph font's
  colour. On a paragraph without runs whose own font has a colour, the captured colour
  is absent, while the field-by-field fallback of the specification yields the
  paragraph's colour.
\<close>

theorem snapshot_colour_counterexample:
  "original_font_color (capture_formatting paragraph_colour_frame) = None
   \<and> original_font_color (spec_snapshot paragraph_colour_frame)
       = Some (SRgbColor (RGBColor 0 0 255))
   \<and> capture_formatting paragraph_colour_frame \<noteq> spec_snapshot paragraph_colour_frame"
  by (simp add: capture_formatting_def spec_snapshot_def paragraph_colour_frame_def
      run_then_paragraph_def if_none_def no_formatting_def default_font_def Let_def)

text \<open>
  C2, amended. For a frame with a first paragraph, size, typeface name, bold, italic and
  underline are each resolved on their own: the first run's value when there is a run
  and the field is set on it, the paragraph font's value otherwise (absent when that is
  unset too). The colour is the first run's typed colour and nothing else: it is absent
  when the paragraph has no run or the run has no typed colour.
\<close>

theorem snapshot_fields:
  assumes "paragraphs text_frame = first_para # rest"
  shows "original_font_size (capture_formatting text_frame)
           = run_then_paragraph font_size first_para
       \<and> original_font_name (capture_formatting text_frame)
           = run_then_paragraph font_name first_para
       \<and> original_font_bold (capture_formatting text_frame)
           = run_then_paragraph font_bold first_para
       \<and> original_font_italic (capture_formatting text_frame)
           = run_then_paragraph font_italic first_para
       \<and> original_font_underline (capture_formatting text_frame)
           = run_then_paragraph font_underline first_para
       \<and> original_font_color (capture_formatting text_frame)
           = (case runs first_para of
                [] \<Rightarrow> None
              | first_run # _ \<Rightarrow> font_color (run_font first_run))"
  using assms
  by (cases "runs first_para")
     (simp_all add: capture_formatting_def run_then_paragraph_def if_none_def
        no_formatting_def Let_def split: option.splits)

text \<open>
  On the mixed frame the size comes from the paragraph, bold from the run, and the
  paragraph's colour is not captured.
\<close>

theorem snapshot_fields_witness:
  "paragraphs mixed_frame = hd (paragraphs mixed_frame) # []
   \<and> original_font_size (capture_formatting mixed_frame) = Some 18
   \<and> original_font_bold (capture_formatting mixed_frame) = Some True
   \<and> original_font_name (capture_formatting mixed_frame) = None
   \<and> original_font_color (capture_formatting mixed_frame) = None"
proof -
  have h: "paragraphs mixed_frame = hd (paragraphs mixed_frame) # []"
    by (simp add: mixed_frame_def)
  from snapshot_fields [OF h] h show ?thesis
    by (simp add: mixed_frame_def run_then_paragraph_def default_font_def)
qed

lemma replace_simple_result:
  assumes "paragraphs tf = p # rest"
  shows "replace_simple fmt new_text tf =
           (map_option (\<lambda>c. ValueError ''assigned value must be type RGBColor'')
              (original_font_color fmt),
            tf\<lparr>paragraphs := simple_para fmt p new_text # rest\<rparr>)"
  using assms
  by (cases "original_font_color fmt")
     (simp_all add: replace_simple_def Let_def assign_color_def set_color_rgb_def
        simple_para_def add_run_def paragraph_clear_def new_run_def)

lemma replace_simple_empty:
  "paragraphs tf = [] \<Longrightarrow>
   replace_simple fmt new_text tf = (Some (IndexError ''tuple index out of range''), tf)"
  by (simp add: replace_simple_def)

lemma replace_bullets_empty:
  "paragraphs tf = [] \<Longrightarrow>
   replace_bullets fmt new_text tf = (Some (IndexError ''tuple index out of range''), tf)"
  by (simp add: replace_bullets_def Let_def split_nl_not_empty remove_trailing_take)

lemma apply_formatting_color [simp]:
  "font_color (apply_formatting fmt f) = font_color f"
  by (simp add: apply_formatting_def Let_def split: option.splits)

lemma overflow_condition:
  "((of_nat n :: rat) > of_nat m * 1.5) = (3 * m < 2 * n)"
proof -
  have "((of_nat n :: rat) > of_nat m * 1.5) = ((of_nat (3 * m) :: rat) < of_nat (2 * n))"
    by (simp add: field_simps)
  also have "\<dots> = (3 * m < 2 * n)"
    by (simp only: of_nat_less_iff)
  finally show ?thesis .
qed

lemma overflow_condition_real:
  "(real n > 1.5 * real m) = (3 * m < 2 * n)"
proof -
  have "(real n > 1.5 * real m) = (real (3 * m) < real (2 * n))"
    by (simp add: field_simps)
  also have "\<dots> = (3 * m < 2 * n)"
    by (simp only: of_nat_less_iff)
  finally show ?thesis .
qed

text \<open>Every call on a shape with a text frame, in closed form.\<close>

lemma update_shape_text_simple:
  assumes "\<not> (preserve_bullets \<and> NL \<in> set new_text)" and "paragraphs tf = p # rest"
  shows "update_shape_text (TextShape tf) new_text preserve_bullets warn =
     ((case original_font_color (capture_formatting tf) of
         Some c \<Rightarrow> Inl (ValueError ''assigned value must be type RGBColor'')
       | None \<Rightarrow>
           Inr \<lparr>success = True, error = None,
                result_warnings =
                  (if warn \<and> 3 * length (text_frame_text tf) < 2 * length new_text
                   then [overflow_warning (length new_text) (length (text_frame_text tf))]
                   else []),
                new_length = Some (length new_text),
                original_length = Some (length (text_frame_text tf))\<rparr>),
      TextShape (tf\<lparr>paragraphs := simple_para (capture_formatting tf) p new_text # rest\<rparr>))"
  using assms(1)
  by (cases "original_font_color (capture_formatting tf)")
     (auto simp: update_shape_text_def Let_def replace_simple_result [OF assms(2)]
        overflow_condition)

lemma update_shape_text_bullets:
  assumes "preserve_bullets" "NL \<in> set new_text" and "paragraphs tf = p # rest"
  shows "update_shape_text (TextShape tf) new_text preserve_bullets warn =
     (Inr \<lparr>success = True, error = None,
           result_warnings =
             (if warn \<and> 3 * length (text_frame_text tf) < 2 * length new_text
              then [overflow_warning (length new_text) (length (text_frame_text tf))]
              else []),
           new_length = Some (length new_text),
           original_length = Some (length (text_frame_text tf))\<rparr>,
      TextShape (tf\<lparr>paragraphs :=
         bullet_para (capture_formatting tf) (level p) (hd (split_nl new_text))
           \<lparr>para_font := para_font p\<rparr>
         # map (bullet_para (capture_formatting tf) (level p)) (tl (split_nl new_text))\<rparr>))"
  using assms(1,2)
  by (auto simp: update_shape_text_def Let_def replace_bullets_result [OF assms(3)]
        overflow_condition)

lemma update_shape_text_empty:
  assumes "paragraphs tf = []"
  shows "update_shape_text (TextShape tf) new_text preserve_bullets warn =
     (Inl (IndexError ''tuple index out of range''), TextShape tf)"
  using assms
  by (simp add: update_shape_text_def Let_def replace_bullets_empty replace_simple_empty)

section \<open>Colour reapplication\<close>

text \<open>
  C3. The bullet branch copies the colour inside a \<^verbatim>\<open>try\<close>; the simple replacement
  assigns the captured colour object to \<^verbatim>\<open>color.rgb\<close> with nothing around it. On
  the one-paragraph frame with a red run, a text without line feed makes
  \<^verbatim>\<open>update_shape_text\<close> raise ValueError, and the exception leaves
  \<^verbatim>\<open>apply_updates\<close> too: no report, nothing saved. The same frame with a text of
  two lines is updated and both runs are red.
\<close>

theorem simple_replacement_colour_raises:
  "fst (update_shape_text (TextShape example_frame) ''New title'' True True)
     = Inl (ValueError ''assigned value must be type RGBColor'')
   \<and> apply_updates \<lparr>slides = [[TextShape example_frame]]\<rparr> [title_update] ''out.pptx''
     = Inl (ValueError ''assigned value must be type RGBColor'')
   \<and> map (\<lambda>p. map (\<lambda>r. font_color (run_font r)) (runs p))
        (shape_paragraphs
           (snd (update_shape_text (TextShape example_frame) ''New\<newline>title'' True True)))
     = [[Some (SRgbColor (RGBColor 255 0 0))], [Some (SRgbColor (RGBColor 255 0 0))]]"
proof -
  have ps: "paragraphs example_frame = hd (paragraphs example_frame) # []"
    by (simp add: example_frame_def)
  have col: "original_font_color (capture_formatting example_frame)
               = Some (SRgbColor (RGBColor 255 0 0))"
    by (simp add: capture_formatting_def example_frame_def Let_def default_font_def)
  have nl: "\<not> (True \<and> NL \<in> set ''New title'')" by (simp add: NL_def)
  have one: "update_shape_text (TextShape example_frame) ''New title'' True True
      = (Inl (ValueError ''assigned value must be type RGBColor''),
         TextShape (example_frame\<lparr>paragraphs :=
           [simple_para (capture_formatting example_frame) (hd (paragraphs example_frame))
              ''New title'']\<rparr>))"
    by (simp add: update_shape_text_simple [OF nl ps] col)
  have two: "apply_updates \<lparr>slides = [[TextShape example_frame]]\<rparr> [title_update] ''out.pptx''
     = Inl (ValueError ''assigned value must be type RGBColor'')"
    by (simp add: apply_updates_def apply_update_def title_update_def regular_update_def
        one Let_def)
  have nl2: "NL \<in> set ''New\<newline>title''" by (simp add: NL_def)
  have sp: "split_nl ''New\<newline>title'' = [''New'', ''title'']" by (simp add: NL_def)
  have three: "map (\<lambda>p. map (\<lambda>r. font_color (run_font r)) (runs p))
        (shape_paragraphs
           (snd (update_shape_text (TextShape example_frame) ''New\<newline>title'' True True)))
     = [[Some (SRgbColor (RGBColor 255 0 0))], [Some (SRgbColor (RGBColor 255 0 0))]]"
    by (simp add: update_shape_text_bullets [OF TrueI nl2 ps] sp shape_paragraphs_def
        bullet_para_def col copy_color_or_skip_def copy_color_def set_color_rgb_def NL_def)
  from one two three show ?thesis by simp
qed

section \<open>The overflow warning\<close>

text \<open>
  A call on a shape with a text frame that returns: its result carries exactly one
  warning if the new text is strictly longer than 1.5 times the original text, and none
  otherwise; the result records both lengths.
\<close>

lemma overflow_warning_exactly_when_longer:
  assumes "update_shape_text (TextShape text_frame) new_text preserve_bullets True
             = (Inr res, shape')"
  shows "result_warnings res =
           (if real (length new_text) > 1.5 * real (length (text_frame_text text_frame))
            then [overflow_warning (length new_text) (length (text_frame_text text_frame))]
            else [])
         \<and> length (result_warnings res) \<le> 1
         \<and> original_length res = Some (length (text_frame_text text_frame))
         \<and> new_length res = Some (length new_text)"
proof (cases "paragraphs text_frame")
  case Nil
  with assms show ?thesis by (simp add: update_shape_text_empty)
next
  case (Cons p rest)
  show ?thesis
  proof (cases "preserve_bullets \<and> NL \<in> set new_text")
    case True
    with assms Cons show ?thesis
      by (auto simp: update_shape_text_bullets overflow_condition_real)
  next
    case False
    with assms show ?thesis
      by (auto simp: update_shape_text_simple [OF False Cons] overflow_condition_real
          split: option.splits)
  qed
qed

text \<open>Original length 10: a new text of 16 characters warns once, one of 15 does not.\<close>

lemma overflow_warning_examples:
  "(\<exists>res shape'.
      update_shape_text (TextShape ten_frame) ''0123456789abcdef'' True True
        = (Inr res, shape')
      \<and> result_warnings res =
          [''New text (16 chars) is significantly longer than original (10 chars). May overflow shape.''])
   \<and> (\<exists>res shape'.
      update_shape_text (TextShape ten_frame) ''0123456789abcde'' True True
        = (Inr res, shape')
      \<and> result_warnings res = [])"
proof -
  have ps: "paragraphs ten_frame = hd (paragraphs ten_frame) # []"
    by (simp add: ten_frame_def)
  have col: "original_font_color (capture_formatting ten_frame) = None"
    by (simp add: capture_formatting_def ten_frame_def Let_def default_font_def if_none_def)
  have len: "length (text_frame_text ten_frame) = 10"
    by (simp add: text_frame_text_def ten_frame_def paragraph_text_def)
  have msg: "overflow_warning 16 10 =
      ''New text (16 chars) is significantly longer than original (10 chars). May overflow shape.''"
    by (simp add: overflow_warning_def str_nat.simps digit_def)
  have l16: "length ''0123456789abcdef'' = 16" by simp
  have l15: "length ''0123456789abcde'' = 15" by simp
  have n16: "\<not> (True \<and> NL \<in> set ''0123456789abcdef'')" by (simp add: NL_def)
  have n15: "\<not> (True \<and> NL \<in> set ''0123456789abcde'')" by (simp add: NL_def)
  obtain r16 s16 where
    e16: "update_shape_text (TextShape ten_frame) ''0123456789abcdef'' True True
            = (Inr r16, s16)"
    by (simp add: update_shape_text_simple [OF n16 ps] col)
  obtain r15 s15 where
    e15: "update_shape_text (TextShape ten_frame) ''0123456789abcde'' True True
            = (Inr r15, s15)"
    by (simp add: update_shape_text_simple [OF n15 ps] col)
  have w16: "result_warnings r16 =
      [''New text (16 chars) is significantly longer than original (10 chars). May overflow shape.'']"
    using overflow_warning_exactly_when_longer [OF e16, unfolded len l16 msg] by simp
  have w15: "result_warnings r15 = []"
    using overflow_warning_exactly_when_longer [OF e15, unfolded len l15] by simp
  from e16 w16 e15 w15 show ?thesis by blast
qed

text \<open>
  C5. The warning is built before the text is replaced, and it reaches the report only
  when the call returns. On the one-paragraph frame with a red run (original text of 8
  characters) and a new text of 16 characters without line feed, the length test holds,
  yet the call raises ValueError at the colour assignment of the simple replacement, and
  \<^verbatim>\<open>apply_updates\<close> raises with it: no warning is emitted.
\<close>

theorem overflow_warning_lost_when_colour_raises:
  "length (text_frame_text example_frame) = 8
   \<and> length ''0123456789abcdef'' = 16
   \<and> real (length ''0123456789abcdef'') > 1.5 * real (length (text_frame_text example_frame))
   \<and> fst (update_shape_text (TextShape example_frame) ''0123456789abcdef'' True True)
       = Inl (ValueError ''assigned value must be type RGBColor'')
   \<and> apply_updates \<lparr>slides = [[TextShape example_frame]]\<rparr> [sixteen_update] ''out.pptx''
       = Inl (ValueError ''assigned value must be type RGBColor'')"
proof -
  have ps: "paragraphs example_frame = hd (paragraphs example_frame) # []"
    by (simp add: example_frame_def)
  have len: "length (text_frame_text example_frame) = 8"
    by (simp add: text_frame_text_def example_frame_def paragraph_text_def)
  have l16: "length ''0123456789abcdef'' = 16" by simp
  have col: "original_font_color (capture_formatting example_frame)
               = Some (SRgbColor (RGBColor 255 0 0))"
    by (simp add: capture_formatting_def example_frame_def Let_def default_font_def)
  have nl: "\<not> (True \<and> NL \<in> set ''0123456789abcdef'')" by (simp add: NL_def)
  have one: "update_shape_text (TextShape example_frame) ''0123456789abcdef'' True True
      = (Inl (ValueError ''assigned value must be type RGBColor''),
         TextShape (example_frame\<lparr>paragraphs :=
           [simple_para (capture_formatting example_frame) (hd (paragraphs example_frame))
              ''0123456789abcdef'']\<rparr>))"
    by (simp only: update_shape_text_simple [OF nl ps] col option.case)
  have two: "apply_updates \<lparr>slides = [[TextShape example_frame]]\<rparr> [sixteen_update]
               ''out.pptx''
     = Inl (ValueError ''assigned value must be type RGBColor'')"
    by (simp add: apply_updates_def apply_update_def sixteen_update_def regular_update_def
        one Let_def)
  have cmp: "real (length ''0123456789abcdef'')
               > 1.5 * real (length (text_frame_text example_frame))"
    unfolding len l16 by simp
  from len l16 cmp one two show ?thesis by simp
qed

section \<open>The simple replacement touches the first paragraph only\<close>

text \<open>
  C7. When \<^verbatim>\<open>preserve_bullets\<close> is false or the new text has no line feed, the
  shape is a text shape after the call as before, and every paragraph after the first
  is what it was, whether the call returns or raises.
\<close>

theorem simple_mode_keeps_other_paragraphs:
  assumes "\<not> (preserve_bullets \<and> NL \<in> set new_text)"
  shows "\<exists>tf'. snd (update_shape_text (TextShape text_frame) new_text preserve_bullets warn)
                 = TextShape tf'
              \<and> tl (paragraphs tf') = tl (paragraphs text_frame)"
proof (cases "paragraphs text_frame")
  case Nil
  then show ?thesis by (simp add: update_shape_text_empty)
next
  case (Cons p rest)
  then show ?thesis by (simp add: update_shape_text_simple [OF assms Cons])
qed

text \<open>
  A heading and an italic detail paragraph at level 1: the replacement succeeds, writes
  the heading and leaves the detail paragraph as it was.
\<close>

theorem simple_mode_witness:
  "\<not> (False \<and> NL \<in> set ''New heading'')
   \<and> (\<exists>res. fst (update_shape_text (TextShape two_paragraph_frame) ''New heading'' False True)
          = Inr res \<and> success res)
   \<and> (\<exists>tf'. snd (update_shape_text (TextShape two_paragraph_frame) ''New heading'' False True)
          = TextShape tf'
        \<and> map (\<lambda>p. map run_text (runs p)) (paragraphs tf') = [[''New heading''], [''Detail'']]
        \<and> tl (paragraphs tf') =
            [\<lparr>runs = [\<lparr>run_text = ''Detail'',
                        run_font = default_font\<lparr>font_italic := Some True\<rparr>\<rparr>],
              level = 1, para_font = default_font\<rparr>])"
proof -
  have h: "\<not> (False \<and> NL \<in> set ''New heading'')" by simp
  have ps: "paragraphs two_paragraph_frame
      = hd (paragraphs two_paragraph_frame) # tl (paragraphs two_paragraph_frame)"
    by (simp add: two_paragraph_frame_def)
  have col: "original_font_color (capture_formatting two_paragraph_frame) = None"
    by (simp add: capture_formatting_def two_paragraph_frame_def Let_def default_font_def
        if_none_def)
  have eq: "update_shape_text (TextShape two_paragraph_frame) ''New heading'' False True = 
     (Inr \<lparr>success = True, error = None,
           result_warnings =
             (if True \<and> 3 * length (text_frame_text two_paragraph_frame) < 2 * length ''New heading''
              then [overflow_warning (length ''New heading'') (length (text_frame_text two_paragraph_frame))]
              else []),
           new_length = Some (length ''New heading''),
           original_length = Some (length (text_frame_text two_paragraph_frame))\<rparr>,
      TextShape (two_paragraph_frame\<lparr>paragraphs :=
         simple_para (capture_formatting two_paragraph_frame)
           (hd (paragraphs two_paragraph_frame)) ''New heading''
         # tl (paragraphs two_paragraph_frame)\<rparr>))"
    by (simp only: update_shape_text_simple [OF h ps] col option.case)
  have tl2: "tl (paragraphs two_paragraph_frame) =
            [\<lparr>runs = [\<lparr>run_text = ''Detail'',
                        run_font = default_font\<lparr>font_italic := Some True\<rparr>\<rparr>],
              level = 1, para_font = default_font\<rparr>]"
    by (simp add: two_paragraph_frame_def)
  from simple_mode_keeps_other_paragraphs [OF h, of two_paragraph_frame True]
  obtain tf' where
    tf': "snd (update_shape_text (TextShape two_paragraph_frame) ''New heading'' False True)
            = TextShape tf'"
    and keep: "tl (paragraphs tf') = tl (paragraphs two_paragraph_frame)"
    by blast
  from tf' eq have "paragraphs tf' =
      simple_para (capture_formatting two_paragraph_frame)
           (hd (paragraphs two_paragraph_frame)) ''New heading''
         # tl (paragraphs two_paragraph_frame)"
    by auto
  then have texts: "map (\<lambda>p. map run_text (runs p)) (paragraphs tf')
      = [[''New heading''], [''Detail'']]"
    by (simp add: simple_para_def tl2 escape_def escape_char_def is_control_def)
  have ok: "\<exists>res. fst (update_shape_text (TextShape two_paragraph_frame) ''New heading'' False True)
          = Inr res \<and> success res"
    by (simp add: eq)
  from h ok tf' texts keep tl2 show ?thesis by auto
qed

lemma paragraph_text_bullet_para [simp]:
  "paragraph_text (bullet_para fmt lvl line\<lparr>para_font := pf\<rparr>) = escape line"
  "paragraph_text (bullet_para fmt lvl line) = escape line"
  by (simp_all add: paragraph_text_def bullet_para_def)

lemma paragraph_text_simple_para [simp]:
  "paragraph_text (simple_para fmt p new_text) = escape new_text"
  by (simp add: paragraph_text_def simple_para_def)

lemma paragraph_text_comp_bullet_para [simp]:
  "paragraph_text \<circ> bullet_para fmt lvl = escape"
  by (rule ext) simp

lemma capture_after_simple:
  "original_font_color
     (capture_formatting (tf\<lparr>paragraphs := simple_para fmt p new_text # rest\<rparr>)) = None"
  by (simp add: capture_formatting_def Let_def simple_para_def default_font_def)

text \<open>
  A second call with the same arguments on the shape the first call returned: it
  returns as well, and the extracted text is the same.
\<close>

lemma update_shape_text_twice:
  assumes "update_shape_text shape new_text pb warn = (Inr res1, shape1)"
  shows "\<exists>res2 shape2.
           update_shape_text shape1 new_text pb warn = (Inr res2, shape2)
           \<and> success res2 = success res1
           \<and> extract_text_from_shape shape2 = extract_text_from_shape shape1"
proof (cases shape)
  case (TextShape tf)
  show ?thesis
  proof (cases "paragraphs tf")
    case Nil
    with assms TextShape show ?thesis by (simp add: update_shape_text_empty)
  next
    case (Cons p rest)
    show ?thesis
    proof (cases "pb \<and> NL \<in> set new_text")
      case True
      then have pb: pb and nl: "NL \<in> set new_text" by simp_all
      let ?fmt = "capture_formatting tf"
      let ?p1 = "bullet_para ?fmt (level p) (hd (split_nl new_text))\<lparr>para_font := para_font p\<rparr>"
      let ?rest1 = "map (bullet_para ?fmt (level p)) (tl (split_nl new_text))"
      let ?tf1 = "tf\<lparr>paragraphs := ?p1 # ?rest1\<rparr>"
      from assms TextShape have s1: "shape1 = TextShape ?tf1" and r1: "success res1"
        by (auto simp: update_shape_text_bullets [OF pb nl Cons])
      have ps1: "paragraphs ?tf1 = ?p1 # ?rest1" by simp
      show ?thesis
        unfolding s1
        by (simp add: update_shape_text_bullets [OF pb nl ps1] r1
            extract_text_from_shape_def text_frame_text_def)
    next
      case False
      let ?fmt = "capture_formatting tf"
      let ?tf1 = "tf\<lparr>paragraphs := simple_para ?fmt p new_text # rest\<rparr>"
      from assms TextShape have s1: "shape1 = TextShape ?tf1" and r1: "success res1"
        by (auto simp: update_shape_text_simple [OF False Cons] split: option.splits)
      have ps1: "paragraphs ?tf1 = simple_para ?fmt p new_text # rest" by simp
      show ?thesis
        unfolding s1
        by (simp add: update_shape_text_simple [OF False ps1] r1 capture_after_simple
            extract_text_from_shape_def text_frame_text_def)
    qed
  qed
next
  case (TableShape t)
  with assms show ?thesis by (auto simp: update_shape_text_def)
next
  case OtherShape
  with assms show ?thesis by (auto simp: update_shape_text_def)
qed

lemma shape_counts_set_shape [simp]:
  "shape_counts (set_shape prs si hi sh) = shape_counts prs"
  by (simp add: shape_counts_def set_shape_def map_update)
     (metis list_update_id map_update)

lemma length_slides_set_shape [simp]:
  "length (slides (set_shape prs si hi sh)) = length (slides prs)"
  by (simp add: set_shape_def)

lemma nth_set_shape:
  "si < length (slides prs) \<Longrightarrow> hi < length (slides prs ! si) \<Longrightarrow>
   slides (set_shape prs si hi sh) ! si ! hi = sh"
  by (simp add: set_shape_def)

lemma length_slide_set_shape [simp]:
  "length (slides (set_shape prs si hi sh) ! sj) = length (slides prs ! sj)"
  by (cases "sj < length (slides prs)"; cases "si = sj")
     (simp_all add: set_shape_def list_update_beyond)

lemma set_shape_same:
  "set_shape prs si hi (slides prs ! si ! hi) = prs"
  by (simp add: set_shape_def)

lemma set_shape_twice [simp]:
  "set_shape (set_shape prs si hi a) si hi b = set_shape prs si hi b"
  by (cases "si < length (slides prs)") (simp_all add: set_shape_def list_update_beyond)

lemma extracted_texts_set_shape:
  "extracted_texts (set_shape prs si hi sh)
     = (extracted_texts prs)[si := (extracted_texts prs ! si)[hi := extract_text_from_shape sh]]"
  by (cases "si < length (slides prs)")
     (simp_all add: extracted_texts_def set_shape_def map_update list_update_beyond)

text \<open>The pass over an instruction whose two indices are integers in range.\<close>

lemma apply_update_in_range:
  assumes "upd_slide u = JInt n" "1 \<le> n" "n \<le> int (length (slides prs))"
    and "upd_shape u = JInt m" "1 \<le> m" "m \<le> int (length (slides prs ! nat (n - 1)))"
  shows "apply_update u (r, prs) =
     (case slides prs ! nat (n - 1) ! nat (m - 1) of
        TableShape table \<Rightarrow>
          if upd_table_cells u \<noteq> [] then
            (case update_cells n m (upd_table_cells u) (r, table) of
               (r', table') \<Rightarrow>
                 Inr (r', set_shape prs (nat (n - 1)) (nat (m - 1)) (TableShape table')))
          else
            (case regular_update n m u (TableShape table) r of
               Inl e \<Rightarrow> Inl e
             | Inr (r', shape') \<Rightarrow> Inr (r', set_shape prs (nat (n - 1)) (nat (m - 1)) shape'))
      | shape \<Rightarrow>
          (case regular_update n m u shape r of
             Inl e \<Rightarrow> Inl e
           | Inr (r', shape') \<Rightarrow> Inr (r', set_shape prs (nat (n - 1)) (nat (m - 1)) shape')))"
  using assms
  by (simp add: apply_update_def Let_def split: shape.splits prod.splits)

lemma apply_update_bad_slide:
  assumes "upd_slide u = JInt n" "n < 1 \<or> n > int (length (slides prs))"
  shows "apply_update u (r, prs) =
     Inr (r\<lparr>errors := errors r @ [invalid_slide_entry n (length (slides prs))]\<rparr>, prs)"
  using assms by (auto simp: apply_update_def)

lemma apply_update_bad_shape:
  assumes "upd_slide u = JInt n" "1 \<le> n" "n \<le> int (length (slides prs))"
    and "upd_shape u = JInt m" "m < 1 \<or> m > int (length (slides prs ! nat (n - 1)))"
  shows "apply_update u (r, prs) =
     Inr (r\<lparr>errors := errors r
            @ [invalid_shape_entry m n (length (slides prs ! nat (n - 1)))]\<rparr>, prs)"
  using assms by (auto simp: apply_update_def Let_def)

lemma prefix_errors_fields [simp]:
  "errors (prefix_errors es r) = es @ errors r"
  "updates_applied (prefix_errors es r) = updates_applied r"
  "warnings (prefix_errors es r) = warnings r"
  "output_file (prefix_errors es r) = output_file r"
  by (simp_all add: prefix_errors_def)

lemma prefix_errors_updates [simp]:
  "prefix_errors es (r\<lparr>updates_applied := k\<rparr>) = (prefix_errors es r)\<lparr>updates_applied := k\<rparr>"
  "prefix_errors es (r\<lparr>warnings := ws\<rparr>) = (prefix_errors es r)\<lparr>warnings := ws\<rparr>"
  "prefix_errors es (r\<lparr>output_file := f\<rparr>) = (prefix_errors es r)\<lparr>output_file := f\<rparr>"
  "prefix_errors es (r\<lparr>errors := errors r @ more_errors\<rparr>)
     = (prefix_errors es r)\<lparr>errors := errors (prefix_errors es r) @ more_errors\<rparr>"
  by (simp_all add: prefix_errors_def)

lemma prefix_state_pair [simp]: "prefix_state es (r, x) = (prefix_errors es r, x)"
  by (simp add: prefix_state_def)

text \<open>
  No pass reads the error list: entries put in front of it stay in front, and everything
  else comes out the same.
\<close>

lemma update_cells_prefix:
  "update_cells n m cs (prefix_errors es r, t) = prefix_state es (update_cells n m cs (r, t))"
proof (induction cs arbitrary: r t)
  case Nil
  show ?case by simp
next
  case (Cons c cs)
  obtain cr t' where step: "update_table_cell t (cu_row c) (cu_column c) (cu_text c) = (cr, t')"
    by (cases "update_table_cell t (cu_row c) (cu_column c) (cu_text c)")
  show ?case
  proof (cases "cr_success cr")
    case True
    then show ?thesis
      using Cons.IH [of "r\<lparr>updates_applied := updates_applied r + 1\<rparr>" t']
      by (simp add: step)
  next
    case False
    then show ?thesis
      using Cons.IH [of "r\<lparr>errors := errors r @ [cell_error_entry n m cr]\<rparr>" t']
      by (simp add: step)
  qed
qed

lemma regular_update_prefix:
  "regular_update n m u sh (prefix_errors es r)
     = map_sum id (prefix_state es) (regular_update n m u sh r)"
  by (simp add: regular_update_def split: prod.splits sum.splits)

lemma apply_update_prefix:
  "apply_update u (prefix_errors es r, prs)
     = map_sum id (prefix_state es) (apply_update u (r, prs))"
  by (simp add: apply_update_def Let_def regular_update_prefix update_cells_prefix
      split: json.splits shape.splits prod.splits sum.splits)

lemma apply_updates_loop_prefix:
  "apply_updates_loop us (prefix_errors es r, prs)
     = map_sum id (prefix_state es) (apply_updates_loop us (r, prs))"
proof (induction us arbitrary: r prs)
  case Nil
  show ?case by simp
next
  case (Cons u us)
  show ?case
  proof (cases "apply_update u (r, prs)")
    case (Inl e)
    then show ?thesis by (simp add: apply_update_prefix)
  next
    case (Inr s)
    obtain r' prs' where s: "s = (r', prs')" by (cases s)
    from Inr s show ?thesis by (simp add: apply_update_prefix Cons.IH)
  qed
qed

text \<open>No pass adds or removes a slide or a shape.\<close>

lemma apply_update_shape_counts:
  assumes "apply_update u (r, prs) = Inr (r', prs')"
  shows "shape_counts prs' = shape_counts prs"
  using assms
  by (auto simp: apply_update_def Let_def
      split: json.splits shape.splits prod.splits sum.splits if_splits)

lemma apply_updates_loop_shape_counts:
  "apply_updates_loop us (r, prs) = Inr (r', prs') \<Longrightarrow> shape_counts prs' = shape_counts prs"
proof (induction us arbitrary: r prs)
  case Nil
  then show ?case by simp
next
  case (Cons u us)
  then show ?case
    by (auto split: sum.splits dest: apply_update_shape_counts)
qed

lemma apply_updates_loop_append:
  "apply_updates_loop (us @ vs) state =
     (case apply_updates_loop us state of
        Inl e \<Rightarrow> Inl e
      | Inr state' \<Rightarrow> apply_updates_loop vs state')"
  by (induction us arbitrary: state) (simp_all split: sum.splits)

lemma shape_counts_lengths:
  assumes "shape_counts p = shape_counts q"
  shows "length (slides p) = length (slides q)"
    and "i < length (slides q) \<Longrightarrow> length (slides p ! i) = length (slides q ! i)"
proof -
  from assms show l: "length (slides p) = length (slides q)"
    unfolding shape_counts_def by (rule map_eq_imp_length_eq)
  assume "i < length (slides q)"
  with l assms show "length (slides p ! i) = length (slides q ! i)"
    unfolding shape_counts_def by (metis nth_map)
qed

lemma out_of_range_shape_counts:
  assumes "shape_counts p = shape_counts q"
  shows "slide_out_of_range p u = slide_out_of_range q u"
    and "slide_in_range p u = slide_in_range q u"
    and "shape_out_of_range p u = shape_out_of_range q u"
    and "slide_out_of_range q u \<or> shape_out_of_range q u \<Longrightarrow>
         index_error_entry p u = index_error_entry q u"
proof -
  note l = shape_counts_lengths [OF assms]
  show a: "slide_out_of_range p u = slide_out_of_range q u"
    by (simp add: slide_out_of_range_def l(1) cong: json.case_cong)
  show b: "slide_in_range p u = slide_in_range q u"
    by (simp add: slide_in_range_def l(1) cong: json.case_cong)
  have c: "slide_in_range q u \<Longrightarrow> shape_count_on_slide p u = shape_count_on_slide q u"
    by (auto simp: slide_in_range_def shape_count_on_slide_def json_int_def
        intro!: l(2) split: json.splits)
  show d: "shape_out_of_range p u = shape_out_of_range q u"
    using c by (auto simp: shape_out_of_range_def b split: json.splits)
  assume "slide_out_of_range q u \<or> shape_out_of_range q u"
  then show "index_error_entry p u = index_error_entry q u"
    using c by (auto simp: index_error_entry_def a l(1) shape_out_of_range_def
        split: json.splits)
qed

lemma apply_update_out_of_range:
  assumes "slide_out_of_range prs u \<or> shape_out_of_range prs u"
  shows "apply_update u (r, prs)
           = Inr (r\<lparr>errors := errors r @ [index_error_entry prs u]\<rparr>, prs)"
proof (cases "slide_out_of_range prs u")
  case True
  then obtain n where "upd_slide u = JInt n" "n < 1 \<or> n > int (length (slides prs))"
    by (auto simp: slide_out_of_range_def split: json.splits)
  with True show ?thesis
    by (simp add: apply_update_bad_slide index_error_entry_def json_int_def)
next
  case False
  with assms have "shape_out_of_range prs u" by simp
  then obtain n m where "upd_slide u = JInt n" "1 \<le> n" "n \<le> int (length (slides prs))"
      "upd_shape u = JInt m" "m < 1 \<or> m > int (length (slides prs ! nat (n - 1)))"
    by (auto simp: shape_out_of_range_def slide_in_range_def shape_count_on_slide_def
        json_int_def split: json.splits)
  with False show ?thesis
    by (simp add: apply_update_bad_shape index_error_entry_def json_int_def
        shape_count_on_slide_def)
qed

section \<open>Instructions with an index out of range\<close>

text \<open>
  C4. Take any batch and put an instruction with an out-of-range slide or shape index
  anywhere into it. If the batch without it raises, so does the batch with it. Otherwise
  the batch with it returns the same saved presentation and the same report (the same
  \<^verbatim>\<open>updates_applied\<close>, warnings and output file) except that the error list has
  exactly one more entry, the one for this instruction, at its place in the order.
\<close>

theorem out_of_range_instruction_isolated:
  assumes "slide_out_of_range prs u \<or> shape_out_of_range prs u"
  shows "case apply_updates prs (before @ after) out of
           Inl e \<Rightarrow> apply_updates prs (before @ u # after) out = Inl e
         | Inr (res, prs') \<Rightarrow>
             \<exists>es1 es2. errors res = es1 @ es2
               \<and> apply_updates prs (before @ u # after) out
                   = Inr (res\<lparr>errors := es1 @ [index_error_entry prs u] @ es2\<rparr>, prs')"
proof (cases "apply_updates_loop before (initial_results, prs)")
  case (Inl e)
  then show ?thesis
    by (simp add: apply_updates_def apply_updates_loop_append initial_results_def)
next
  case (Inr sb)
  obtain rb pb where sb: "sb = (rb, pb)" by (cases sb)
  from Inr sb have cnt: "shape_counts pb = shape_counts prs"
    by (auto dest: apply_updates_loop_shape_counts)
  from assms have bad: "slide_out_of_range pb u \<or> shape_out_of_range pb u"
    by (simp add: out_of_range_shape_counts [OF cnt])
  have entry: "index_error_entry pb u = index_error_entry prs u"
    using assms by (rule out_of_range_shape_counts(4) [OF cnt])
  let ?r00 = "rb\<lparr>errors := []\<rparr>"
  have rb: "prefix_errors (errors rb) ?r00 = rb"
    by (simp add: prefix_errors_def)
  have rb': "rb\<lparr>errors := errors rb @ [index_error_entry prs u]\<rparr>
               = prefix_errors (errors rb @ [index_error_entry prs u]) ?r00"
    by (simp add: prefix_errors_def)
  have step: "apply_update u (rb, pb)
                = Inr (rb\<lparr>errors := errors rb @ [index_error_entry prs u]\<rparr>, pb)"
    using apply_update_out_of_range [OF bad] by (simp add: entry)
  have without: "apply_updates_loop (before @ after) (initial_results, prs)
      = map_sum id (prefix_state (errors rb)) (apply_updates_loop after (?r00, pb))"
    using Inr sb apply_updates_loop_prefix [of after "errors rb" ?r00 pb]
    by (simp add: apply_updates_loop_append rb)
  have with_u: "apply_updates_loop (before @ u # after) (initial_results, prs)
      = map_sum id (prefix_state (errors rb @ [index_error_entry prs u]))
          (apply_updates_loop after (?r00, pb))"
    using Inr sb
    by (simp add: apply_updates_loop_append step rb' apply_updates_loop_prefix)
  have init: "\<lparr>updates_applied = 0, errors = [], warnings = [], output_file = None\<rparr>
                = initial_results"
    by (simp add: initial_results_def)
  show ?thesis
  proof (cases "apply_updates_loop after (?r00, pb)")
    case (Inl e)
    have w1: "apply_updates prs (before @ after) out = Inl e"
      by (simp only: apply_updates_def init without Inl) simp
    have w2: "apply_updates prs (before @ u # after) out = Inl e"
      by (simp only: apply_updates_def init with_u Inl) simp
    show ?thesis by (simp only: w1 w2) simp
  next
    case (Inr sa)
    obtain ra pa where sa: "sa = (ra, pa)" by (cases sa)
    let ?res = "prefix_errors (errors rb) ra\<lparr>output_file := Some out\<rparr>"
    have w1: "apply_updates prs (before @ after) out = Inr (?res, pa)"
      by (simp only: apply_updates_def init without Inr sa) simp
    have w2: "apply_updates prs (before @ u # after) out
        = Inr (prefix_errors (errors rb @ [index_error_entry prs u]) ra
                 \<lparr>output_file := Some out\<rparr>, pa)"
      by (simp only: apply_updates_def init with_u Inr sa) simp
    have e1: "errors ?res = errors rb @ errors ra" by simp
    have e2: "prefix_errors (errors rb @ [index_error_entry prs u]) ra
                     \<lparr>output_file := Some out\<rparr>
        = ?res\<lparr>errors := errors rb @ [index_error_entry prs u] @ errors ra\<rparr>"
      by (simp add: prefix_errors_def)
    have "\<exists>es1 es2. errors ?res = es1 @ es2
               \<and> apply_updates prs (before @ u # after) out
                   = Inr (?res\<lparr>errors := es1 @ [index_error_entry prs u] @ es2\<rparr>, pa)"
      using e1 e2 w2 by metis
    then show ?thesis by (simp only: w1 sum.case prod.case)
  qed
qed

lemma two_good_updates:
  "case apply_updates one_slide [hello_update, goodbye_update] ''out.pptx'' of
     Inl e \<Rightarrow> False
   | Inr (res, prs') \<Rightarrow> errors res = [] \<and> updates_applied res = 2"
  by code_simp

text \<open>
  Slide 5 of a one-slide presentation, between two good instructions: both are applied,
  and the report has the one entry for slide 5.
\<close>

theorem out_of_range_instruction_witness:
  "(slide_out_of_range one_slide slide_five_update
      \<or> shape_out_of_range one_slide slide_five_update)
   \<and> (\<exists>res prs'.
        apply_updates one_slide [hello_update, goodbye_update] ''out.pptx'' = Inr (res, prs')
        \<and> updates_applied res = 2 \<and> errors res = []
        \<and> apply_updates one_slide [hello_update, slide_five_update, goodbye_update]
             ''out.pptx''
            = Inr (res\<lparr>errors := [''Invalid slide number: 5. Template has 1 slides.'']\<rparr>,
                   prs'))"
proof -
  have h: "slide_out_of_range one_slide slide_five_update
             \<or> shape_out_of_range one_slide slide_five_update"
    by (simp add: slide_out_of_range_def slide_five_update_def one_slide_def)
  have entry: "index_error_entry one_slide slide_five_update
                 = ''Invalid slide number: 5. Template has 1 slides.''"
    by (simp add: index_error_entry_def slide_out_of_range_def slide_five_update_def
        one_slide_def json_int_def invalid_slide_entry_def str_int_def str_nat.simps
        digit_def)
  obtain res prs' where
    ok: "apply_updates one_slide [hello_update, goodbye_update] ''out.pptx'' = Inr (res, prs')"
    and e: "errors res = []" and n: "updates_applied res = 2"
    using two_good_updates by (auto split: sum.splits prod.splits)
  from out_of_range_instruction_isolated
         [OF h, of "[hello_update]" "[goodbye_update]" "''out.pptx''"]
  have "\<exists>es1 es2. errors res = es1 @ es2
          \<and> apply_updates one_slide [hello_update, slide_five_update, goodbye_update]
               ''out.pptx''
              = Inr (res\<lparr>errors := es1 @ [index_error_entry one_slide slide_five_update]
                       @ es2\<rparr>, prs')"
    by (simp add: ok)
  with e have "apply_updates one_slide [hello_update, slide_five_update, goodbye_update]
               ''out.pptx''
      = Inr (res\<lparr>errors := [''Invalid slide number: 5. Template has 1 slides.'']\<rparr>, prs')"
    by (auto simp: entry)
  with h ok e n show ?thesis by blast
qed

lemma malformed_shape_counts:
  assumes "shape_counts p = shape_counts q"
  shows "malformed_target p u = malformed_target q u"
  by (simp add: malformed_target_def out_of_range_shape_counts(2) [OF assms]
      cong: json.case_cong)

lemma apply_update_malformed:
  assumes "malformed_target prs u"
  shows "apply_update u (r, prs) = Inl (TypeError (not_supported ''<'' (offending_type u)))"
  using assms
  by (auto simp: malformed_target_def slide_in_range_def apply_update_def Let_def
      offending_type_def split: json.splits)

section \<open>Malformed instructions\<close>

text \<open>
  C9, as stated, fails: an instruction without a slide field is not recorded in the
  error list. The comparison \<^verbatim>\<open>slide_num < 1\<close> raises TypeError, nothing in
  \<^verbatim>\<open>apply_updates\<close> catches it, and the run ends there: no report, and the good
  instruction after it is never applied.
\<close>

theorem malformed_instruction_counterexample:
  "apply_updates one_slide [missing_slide_update, hello_update] ''out.pptx''
     = Inl (TypeError (not_supported ''<'' ''NoneType''))"
  by (simp add: apply_updates_def apply_update_def missing_slide_update_def)

text \<open>
  C9, amended. An instruction whose slide field is missing or a string, or whose slide
  index is in range while its shape field is missing or a string, is not recovered: its
  pass raises TypeError. Wherever it stands in a batch, \<^verbatim>\<open>apply_updates\<close> raises: the
  exception of an earlier instruction if one raises first, this TypeError otherwise. No
  error string is recorded, no report is returned and nothing is saved.
\<close>

theorem malformed_instruction_aborts:
  assumes "malformed_target prs u"
  shows "apply_update u (r, prs) = Inl (TypeError (not_supported ''<'' (offending_type u)))
       \<and> (case apply_updates_loop before (initial_results, prs) of
            Inl e \<Rightarrow> apply_updates prs (before @ u # after) out = Inl e
          | Inr state \<Rightarrow>
              apply_updates prs (before @ u # after) out
                = Inl (TypeError (not_supported ''<'' (offending_type u))))"
proof -
  note one = apply_update_malformed [OF assms, of r]
  have two: "case apply_updates_loop before (initial_results, prs) of
            Inl e \<Rightarrow> apply_updates prs (before @ u # after) out = Inl e
          | Inr state \<Rightarrow>
              apply_updates prs (before @ u # after) out
                = Inl (TypeError (not_supported ''<'' (offending_type u)))"
  proof (cases "apply_updates_loop before (initial_results, prs)")
    case (Inl e)
    then show ?thesis
      by (simp add: apply_updates_def apply_updates_loop_append initial_results_def)
  next
    case (Inr sb)
    obtain rb pb where sb: "sb = (rb, pb)" by (cases sb)
    from Inr sb have cnt: "shape_counts pb = shape_counts prs"
      by (auto dest: apply_updates_loop_shape_counts)
    from assms have "malformed_target pb u"
      by (simp only: malformed_shape_counts [OF cnt])
    note step = apply_update_malformed [OF this, of rb]
    from Inr sb step have "apply_updates_loop (before @ u # after) (initial_results, prs)
        = Inl (TypeError (not_supported ''<'' (offending_type u)))"
      by (simp add: apply_updates_loop_append)
    then have "apply_updates prs (before @ u # after) out
        = Inl (TypeError (not_supported ''<'' (offending_type u)))"
      by (simp add: apply_updates_def initial_results_def)
    with Inr show ?thesis by simp
  qed
  from one two show ?thesis by simp
qed

text \<open>The instruction without slide field between two good ones: the run raises TypeError.\<close>

theorem malformed_instruction_witness:
  "malformed_target one_slide missing_slide_update
   \<and> apply_update missing_slide_update (initial_results, one_slide)
       = Inl (TypeError (not_supported ''<'' ''NoneType''))
   \<and> apply_updates one_slide [hello_update, missing_slide_update, goodbye_update] ''out.pptx''
       = Inl (TypeError (not_supported ''<'' ''NoneType''))"
proof -
  have h: "malformed_target one_slide missing_slide_update"
    by (simp add: malformed_target_def missing_slide_update_def)
  have ty: "offending_type missing_slide_update = ''NoneType''"
    by (simp add: offending_type_def missing_slide_update_def)
  have before: "case apply_updates_loop [hello_update] (initial_results, one_slide) of
                  Inl e \<Rightarrow> False | Inr state \<Rightarrow> True"
    by code_simp
  note t = malformed_instruction_aborts
             [OF h, of initial_results "[hello_update]" "[goodbye_update]" "''out.pptx''",
              unfolded ty]
  from t before have
    "apply_updates one_slide ([hello_update] @ missing_slide_update # [goodbye_update])
        ''out.pptx''
       = Inl (TypeError (not_supported ''<'' ''NoneType''))"
    by (cases "apply_updates_loop [hello_update] (initial_results, one_slide)") simp_all
  with t h show ?thesis by simp
qed

lemma shape_kinds_counts:
  "shape_kinds p = shape_kinds q \<Longrightarrow> shape_counts p = shape_counts q"
proof -
  assume a: "shape_kinds p = shape_kinds q"
  have "shape_counts p = map length (shape_kinds p)"
    by (simp add: shape_counts_def shape_kinds_def)
  also have "\<dots> = map length (shape_kinds q)" by (simp only: a)
  also have "\<dots> = shape_counts q"
    by (simp add: shape_counts_def shape_kinds_def)
  finally show ?thesis .
qed

lemma shape_kinds_nth:
  assumes "shape_kinds p = shape_kinds q" "i < length (slides q)" "j < length (slides q ! i)"
  shows "kind_of (slides p ! i ! j) = kind_of (slides q ! i ! j)"
proof -
  note l = shape_counts_lengths [OF shape_kinds_counts [OF assms(1)]]
  from assms(2) l(1) have ip: "i < length (slides p)" by simp
  from assms(2,3) l(2) have jp: "j < length (slides p ! i)" by simp
  have "kind_of (slides p ! i ! j) = shape_kinds p ! i ! j"
    using ip jp by (simp add: shape_kinds_def)
  also have "\<dots> = shape_kinds q ! i ! j" by (simp only: assms(1))
  also have "\<dots> = kind_of (slides q ! i ! j)"
    using assms(2,3) by (simp add: shape_kinds_def)
  finally show ?thesis .
qed

lemma shape_kinds_set_shape:
  assumes "si < length (slides prs)" "hi < length (slides prs ! si)"
    and "kind_of sh = kind_of (slides prs ! si ! hi)"
  shows "shape_kinds (set_shape prs si hi sh) = shape_kinds prs"
proof -
  have "map kind_of ((slides prs ! si)[hi := sh]) = map kind_of (slides prs ! si)"
    using assms(2,3) by (simp add: map_update) (metis list_update_id map_update)
  then show ?thesis
    using assms(1)
    by (simp add: shape_kinds_def set_shape_def map_update)
       (metis list_update_id map_update nth_map)
qed

lemma update_shape_text_kind:
  "kind_of (snd (update_shape_text shape t pb w)) = kind_of shape"
  by (cases shape) (simp_all add: update_shape_text_def Let_def split: prod.splits option.splits)

lemma regular_update_kind:
  "regular_update n m u shape r = Inr (r', shape') \<Longrightarrow> kind_of shape' = kind_of shape"
  using update_shape_text_kind [of shape "upd_text u" "upd_preserve_bullets u" True]
  by (auto simp: regular_update_def split: prod.splits sum.splits)

lemma apply_update_shape_kinds:
  assumes "apply_update u (r, prs) = Inr (r', prs')"
  shows "shape_kinds prs' = shape_kinds prs"
proof (cases "slide_out_of_range prs u \<or> shape_out_of_range prs u")
  case True
  from apply_update_out_of_range [OF True, of r] assms show ?thesis by simp
next
  case False
  from assms obtain n where n: "upd_slide u = JInt n"
    by (cases "upd_slide u") (simp_all add: apply_update_def)
  with False have nr: "1 \<le> n" "n \<le> int (length (slides prs))"
    by (simp_all add: slide_out_of_range_def)
  from assms n nr obtain m where m: "upd_shape u = JInt m"
    by (cases "upd_shape u") (simp_all add: apply_update_def Let_def)
  with False n nr have mr: "1 \<le> m" "m \<le> int (length (slides prs ! nat (n - 1)))"
    by (simp_all add: shape_out_of_range_def slide_in_range_def shape_count_on_slide_def
        json_int_def)
  let ?si = "nat (n - 1)" and ?hi = "nat (m - 1)"
  from nr have si: "?si < length (slides prs)" by simp
  from mr have hi: "?hi < length (slides prs ! ?si)" by simp
  note eq = apply_update_in_range [OF n nr m mr, of r]
  show ?thesis
  proof (cases "\<exists>table. slides prs ! ?si ! ?hi = TableShape table \<and> upd_table_cells u \<noteq> []")
    case True
    then obtain table where t: "slides prs ! ?si ! ?hi = TableShape table"
      and c: "upd_table_cells u \<noteq> []" by blast
    from assms eq t c obtain table' where "prs' = set_shape prs ?si ?hi (TableShape table')"
      by (auto split: prod.splits)
    then show ?thesis
      using si hi t by (simp add: shape_kinds_set_shape)
  next
    case False
    with assms eq obtain shape' where
      reg: "regular_update n m u (slides prs ! ?si ! ?hi) r = Inr (r', shape')"
      and p: "prs' = set_shape prs ?si ?hi shape'"
      by (cases "slides prs ! ?si ! ?hi") (auto split: sum.splits prod.splits if_splits)
    from regular_update_kind [OF reg] p show ?thesis
      using si hi by (simp add: shape_kinds_set_shape)
  qed
qed

lemma apply_updates_loop_shape_kinds:
  "apply_updates_loop us (r, prs) = Inr (r', prs') \<Longrightarrow> shape_kinds prs' = shape_kinds prs"
proof (induction us arbitrary: r prs)
  case Nil
  then show ?case by simp
next
  case (Cons u us)
  then show ?case
    by (auto split: sum.splits dest: apply_update_shape_kinds)
qed

lemma target_in_rangeD:
  assumes "target_in_range prs u"
  obtains n m where "upd_slide u = JInt n" "1 \<le> n" "n \<le> int (length (slides prs))"
    "upd_shape u = JInt m" "1 \<le> m" "m \<le> int (length (slides prs ! nat (n - 1)))"
    "target_shape prs u = slides prs ! nat (n - 1) ! nat (m - 1)"
  using assms
  by (auto simp: target_in_range_def slide_in_range_def shape_count_on_slide_def
      json_int_def target_shape_def split: json.splits)

lemma no_text_frame_kind:
  "no_text_frame_target prs u =
     (target_in_range prs u \<and>
      (kind_of (target_shape prs u) = OtherKind
       \<or> kind_of (target_shape prs u) = TableKind \<and> upd_table_cells u = []))"
  by (cases "target_shape prs u") (simp_all add: no_text_frame_target_def)

lemma no_text_frame_shape_kinds:
  assumes "shape_kinds p = shape_kinds q"
  shows "no_text_frame_target p u = no_text_frame_target q u"
proof -
  note cnt = shape_kinds_counts [OF assms]
  note l = shape_counts_lengths [OF cnt]
  have tr: "target_in_range p u = target_in_range q u"
  proof (cases "slide_in_range q u")
    case True
    then have "shape_count_on_slide p u = shape_count_on_slide q u"
      by (auto simp: slide_in_range_def shape_count_on_slide_def json_int_def
          intro!: l(2) split: json.splits)
    then show ?thesis
      by (simp add: target_in_range_def out_of_range_shape_counts(2) [OF cnt]
          cong: json.case_cong)
  next
    case False
    then show ?thesis
      by (simp add: target_in_range_def out_of_range_shape_counts(2) [OF cnt])
  qed
  show ?thesis
  proof (cases "target_in_range q u")
    case False
    with tr show ?thesis by (simp add: no_text_frame_kind)
  next
    case True
    then obtain n m where nm: "upd_slide u = JInt n" "1 \<le> n" "n \<le> int (length (slides q))"
      "upd_shape u = JInt m" "1 \<le> m" "m \<le> int (length (slides q ! nat (n - 1)))"
      by (rule target_in_rangeD)
    have "kind_of (target_shape p u) = kind_of (target_shape q u)"
      using nm by (simp add: target_shape_def json_int_def shape_kinds_nth [OF assms])
    with tr show ?thesis by (simp add: no_text_frame_kind)
  qed
qed

lemma apply_update_no_text_frame:
  assumes "no_text_frame_target prs u"
  shows "apply_update u (r, prs)
           = Inr (r\<lparr>errors := errors r @ [no_text_frame_entry u]\<rparr>, prs)"
    and "update_shape_text (target_shape prs u) (upd_text u) (upd_preserve_bullets u) True
           = (Inr \<lparr>success = False, error = Some ''Shape has no text frame'',
                   result_warnings = [], new_length = None, original_length = None\<rparr>,
              target_shape prs u)"
proof -
  from assms have tr: "target_in_range prs u" by (simp add: no_text_frame_target_def)
  from tr obtain n m where nm: "upd_slide u = JInt n" "1 \<le> n" "n \<le> int (length (slides prs))"
    "upd_shape u = JInt m" "1 \<le> m" "m \<le> int (length (slides prs ! nat (n - 1)))"
    and ts: "target_shape prs u = slides prs ! nat (n - 1) ! nat (m - 1)"
    by (rule target_in_rangeD)
  from assms have kind: "case target_shape prs u of
         TextShape _ \<Rightarrow> False
       | TableShape _ \<Rightarrow> upd_table_cells u = []
       | OtherShape \<Rightarrow> True"
    by (simp add: no_text_frame_target_def)
  show call: "update_shape_text (target_shape prs u) (upd_text u) (upd_preserve_bullets u) True
           = (Inr \<lparr>success = False, error = Some ''Shape has no text frame'',
                   result_warnings = [], new_length = None, original_length = None\<rparr>,
              target_shape prs u)"
    using kind by (cases "target_shape prs u") (simp_all add: update_shape_text_def)
  have reg: "regular_update n m u (target_shape prs u) r
      = Inr (r\<lparr>errors := errors r @ [no_text_frame_entry u]\<rparr>, target_shape prs u)"
    by (simp add: regular_update_def call no_text_frame_entry_def nm(1,4) shape_prefix_def
        str_option_def)
  have same: "set_shape prs (nat (n - 1)) (nat (m - 1)) (target_shape prs u) = prs"
    by (simp add: ts set_shape_same)
  show "apply_update u (r, prs)
           = Inr (r\<lparr>errors := errors r @ [no_text_frame_entry u]\<rparr>, prs)"
    using kind reg same
    by (cases "target_shape prs u")
       (simp_all add: apply_update_in_range [OF nm] ts [symmetric])
qed

section \<open>Shapes without a text frame\<close>

text \<open>
  C10. When the resolved shape has no text frame (a table addressed without cell entries
  included), \<^verbatim>\<open>update_shape_text\<close> returns the failure result with the message
  \<^verbatim>\<open>Shape has no text frame\<close> and the shape as it was; the pass of the dispatcher
  appends that message with the \<^verbatim>\<open>Slide N, Shape M\<close> prefix to the errors and changes
  nothing else; and a batch with such an instruction anywhere in it returns the saved
  presentation and the report of the batch without it, with that one entry more in the
  error list (or raises as the batch without it does).
\<close>

theorem no_text_frame_reported:
  assumes "no_text_frame_target prs u"
  shows "update_shape_text (target_shape prs u) (upd_text u) (upd_preserve_bullets u) True
           = (Inr \<lparr>success = False, error = Some ''Shape has no text frame'',
                   result_warnings = [], new_length = None, original_length = None\<rparr>,
              target_shape prs u)
       \<and> apply_update u (r, prs)
           = Inr (r\<lparr>errors := errors r @ [no_text_frame_entry u]\<rparr>, prs)
       \<and> (case apply_updates prs (before @ after) out of
             Inl e \<Rightarrow> apply_updates prs (before @ u # after) out = Inl e
           | Inr (res, prs') \<Rightarrow>
               \<exists>es1 es2. errors res = es1 @ es2
                 \<and> apply_updates prs (before @ u # after) out
                     = Inr (res\<lparr>errors := es1 @ [no_text_frame_entry u] @ es2\<rparr>, prs'))"
proof -
  note call = apply_update_no_text_frame(2) [OF assms]
  note step0 = apply_update_no_text_frame(1) [OF assms, of r]
  have batch: "case apply_updates prs (before @ after) out of
             Inl e \<Rightarrow> apply_updates prs (before @ u # after) out = Inl e
           | Inr (res, prs') \<Rightarrow>
               \<exists>es1 es2. errors res = es1 @ es2
                 \<and> apply_updates prs (before @ u # after) out
                     = Inr (res\<lparr>errors := es1 @ [no_text_frame_entry u] @ es2\<rparr>, prs')"
  proof (cases "apply_updates_loop before (initial_results, prs)")
    case (Inl e)
    then show ?thesis
      by (simp add: apply_updates_def apply_updates_loop_append initial_results_def)
  next
    case (Inr sb)
    obtain rb pb where sb: "sb = (rb, pb)" by (cases sb)
    from Inr sb have kinds: "shape_kinds pb = shape_kinds prs"
      by (auto dest: apply_updates_loop_shape_kinds)
    from assms have bad: "no_text_frame_target pb u"
      by (simp only: no_text_frame_shape_kinds [OF kinds])
    let ?entry = "no_text_frame_entry u"
    let ?r00 = "rb\<lparr>errors := []\<rparr>"
    have rb: "prefix_errors (errors rb) ?r00 = rb"
      by (simp add: prefix_errors_def)
    have rb': "rb\<lparr>errors := errors rb @ [?entry]\<rparr>
                 = prefix_errors (errors rb @ [?entry]) ?r00"
      by (simp add: prefix_errors_def)
    note step = apply_update_no_text_frame(1) [OF bad, of rb]
    have without: "apply_updates_loop (before @ after) (initial_results, prs)
        = map_sum id (prefix_state (errors rb)) (apply_updates_loop after (?r00, pb))"
      using Inr sb apply_updates_loop_prefix [of after "errors rb" ?r00 pb]
      by (simp add: apply_updates_loop_append rb)
    have with_u: "apply_updates_loop (before @ u # after) (initial_results, prs)
        = map_sum id (prefix_state (errors rb @ [?entry]))
            (apply_updates_loop after (?r00, pb))"
      using Inr sb
      by (simp add: apply_updates_loop_append step rb' apply_updates_loop_prefix)
    have init: "\<lparr>updates_applied = 0, errors = [], warnings = [], output_file = None\<rparr>
                  = initial_results"
      by (simp add: initial_results_def)
    show ?thesis
    proof (cases "apply_updates_loop after (?r00, pb)")
      case (Inl e)
      have w1: "apply_updates prs (before @ after) out = Inl e"
        by (simp only: apply_updates_def init without Inl) simp
      have w2: "apply_updates prs (before @ u # after) out = Inl e"
        by (simp only: apply_updates_def init with_u Inl) simp
      show ?thesis by (simp only: w1 w2) simp
    next
      case (Inr sa)
      obtain ra pa where sa: "sa = (ra, pa)" by (cases sa)
      let ?res = "prefix_errors (errors rb) ra\<lparr>output_file := Some out\<rparr>"
      have w1: "apply_updates prs (before @ after) out = Inr (?res, pa)"
        by (simp only: apply_updates_def init without Inr sa) simp
      have w2: "apply_updates prs (before @ u # after) out
          = Inr (prefix_errors (errors rb @ [?entry]) ra\<lparr>output_file := Some out\<rparr>, pa)"
        by (simp only: apply_updates_def init with_u Inr sa) simp
      have e1: "errors ?res = errors rb @ errors ra" by simp
      have e2: "prefix_errors (errors rb @ [?entry]) ra\<lparr>output_file := Some out\<rparr>
          = ?res\<lparr>errors := errors rb @ [?entry] @ errors ra\<rparr>"
        by (simp add: prefix_errors_def)
      have "\<exists>es1 es2. errors ?res = es1 @ es2
                 \<and> apply_updates prs (before @ u # after) out
                     = Inr (?res\<lparr>errors := es1 @ [?entry] @ es2\<rparr>, pa)"
        using e1 e2 w2 by metis
      then show ?thesis by (simp only: w1 sum.case prod.case)
    qed
  qed
  from call step0 batch show ?thesis by simp
qed

text \<open>
  A picture and a table without cell entries are both reported, and a picture between
  two good instructions leaves both applied.
\<close>

theorem no_text_frame_witness:
  "no_text_frame_target one_slide picture_update
   \<and> no_text_frame_target table_slide table_text_update
   \<and> apply_update picture_update (initial_results, one_slide)
       = Inr (initial_results\<lparr>errors := [''Slide 1, Shape 2: Shape has no text frame'']\<rparr>,
              one_slide)
   \<and> apply_update table_text_update (initial_results, table_slide)
       = Inr (initial_results\<lparr>errors := [''Slide 1, Shape 3: Shape has no text frame'']\<rparr>,
              table_slide)
   \<and> (\<exists>res prs'.
        apply_updates one_slide [hello_update, goodbye_update] ''out.pptx'' = Inr (res, prs')
        \<and> updates_applied res = 2 \<and> errors res = []
        \<and> apply_updates one_slide [hello_update, picture_update, goodbye_update] ''out.pptx''
            = Inr (res\<lparr>errors := [''Slide 1, Shape 2: Shape has no text frame'']\<rparr>, prs'))"
proof -
  have h: "no_text_frame_target one_slide picture_update"
    by (simp add: no_text_frame_target_def target_in_range_def slide_in_range_def
        shape_count_on_slide_def target_shape_def json_int_def one_slide_def
        picture_update_def)
  have ht: "no_text_frame_target table_slide table_text_update"
    by (simp add: no_text_frame_target_def target_in_range_def slide_in_range_def
        shape_count_on_slide_def target_shape_def json_int_def table_slide_def
        table_text_update_def)
  have entry: "no_text_frame_entry picture_update = ''Slide 1, Shape 2: Shape has no text frame''"
    by (simp add: no_text_frame_entry_def picture_update_def str_int_def str_nat.simps
        digit_def)
  have entry_t: "no_text_frame_entry table_text_update
                   = ''Slide 1, Shape 3: Shape has no text frame''"
    by (simp add: no_text_frame_entry_def table_text_update_def str_int_def str_nat.simps
        digit_def)
  have e0: "errors initial_results = []" by (simp add: initial_results_def)
  note t = no_text_frame_reported
             [OF h, of initial_results "[hello_update]" "[goodbye_update]" "''out.pptx''",
              unfolded entry e0]
  note tt = no_text_frame_reported
             [OF ht, of initial_results "[]" "[]" "''out.pptx''", unfolded entry_t e0]
  from t have step: "apply_update picture_update (initial_results, one_slide)
       = Inr (initial_results\<lparr>errors := [''Slide 1, Shape 2: Shape has no text frame'']\<rparr>,
              one_slide)"
    by simp
  from tt have step_t: "apply_update table_text_update (initial_results, table_slide)
       = Inr (initial_results\<lparr>errors := [''Slide 1, Shape 3: Shape has no text frame'']\<rparr>,
              table_slide)"
    by simp
  obtain res prs' where
    ok: "apply_updates one_slide [hello_update, goodbye_update] ''out.pptx'' = Inr (res, prs')"
    and e: "errors res = []" and n: "updates_applied res = 2"
    using two_good_updates by (auto split: sum.splits prod.splits)
  from t have "\<exists>es1 es2. errors res = es1 @ es2
          \<and> apply_updates one_slide [hello_update, picture_update, goodbye_update]
               ''out.pptx''
              = Inr (res\<lparr>errors := es1 @ [''Slide 1, Shape 2: Shape has no text frame'']
                       @ es2\<rparr>, prs')"
    by (simp add: ok)
  with e have "apply_updates one_slide [hello_update, picture_update, goodbye_update]
               ''out.pptx''
      = Inr (res\<lparr>errors := [''Slide 1, Shape 2: Shape has no text frame'']\<rparr>, prs')"
    by auto
  with h ht step step_t ok e n show ?thesis by blast
qed

lemma table_dims_set_cell [simp]: "table_dims (set_cell t i j tf) = table_dims t"
  by (simp add: table_dims_def set_cell_def map_update) (metis list_update_id map_update)

lemma update_table_cell_dims:
  "update_table_cell t row col x = (res, t') \<Longrightarrow> table_dims t' = table_dims t"
  by (auto simp: update_table_cell_def Let_def
      split: sum.splits list.splits)

lemma update_table_cell_failure:
  assumes "update_table_cell t (cu_row c) (cu_column c) x = (res, t')" "\<not> cr_success res"
  shows "\<exists>e. res = cell_failure e (cu_row c) (cu_column c)"
  using assms
  by (auto simp: update_table_cell_def Let_def split: sum.splits list.splits)

lemma cell_failure_fields:
  "cr_cell (cell_failure e (cu_row c) (cu_column c)) = cell_ref c"
  "cr_error (cell_failure e (cu_row c) (cu_column c)) = Some (str_exn e)"
  "cell_error_entry n m (cell_failure e (cu_row c) (cu_column c))
     = cell_entry n m c (str_exn e)"
  "cr_success (cell_failure e row col) = False"
  by (simp_all add: cell_failure_def cell_ref_def cell_error_entry_def cell_entry_def
      str_option_def)

lemma update_table_cell_out_of_range:
  assumes "cell_out_of_range t c"
  shows "update_table_cell t (cu_row c) (cu_column c) x
           = (cell_failure (IndexError (out_of_range_message t c)) (cu_row c) (cu_column c), t)"
  using assms
  by (auto simp: cell_out_of_range_def update_table_cell_def check_index_def
      out_of_range_message_def json_int_def split: json.splits if_splits)

lemma table_dims_lengths:
  assumes "table_dims p = table_dims q"
  shows "length (rows p) = length (rows q)"
    and "i < length (rows q) \<Longrightarrow> length (rows p ! i) = length (rows q ! i)"
proof -
  from assms show l: "length (rows p) = length (rows q)"
    unfolding table_dims_def by (rule map_eq_imp_length_eq)
  assume "i < length (rows q)"
  with l assms show "length (rows p ! i) = length (rows q ! i)"
    unfolding table_dims_def by (metis nth_map)
qed

lemma cell_out_of_range_dims:
  assumes "table_dims p = table_dims q"
  shows "cell_out_of_range p c = cell_out_of_range q c"
    and "out_of_range_message p c = out_of_range_message q c"
proof -
  note l = table_dims_lengths [OF assms]
  show "cell_out_of_range p c = cell_out_of_range q c"
  proof (cases "cu_row c")
    case (JInt i)
    show ?thesis
    proof (cases "i < 0 \<or> int (length (rows q)) \<le> i")
      case True
      with JInt show ?thesis by (simp add: cell_out_of_range_def l(1))
    next
      case False
      then have "nat i < length (rows q)" by linarith
      then have "length (rows p ! nat i) = length (rows q ! nat i)"
        by (rule l(2))
      with JInt False show ?thesis
        by (simp add: cell_out_of_range_def l(1) cong: json.case_cong)
    qed
  qed (simp_all add: cell_out_of_range_def)
  show "out_of_range_message p c = out_of_range_message q c"
    by (simp add: out_of_range_message_def l(1))
qed

lemma update_cells_append:
  "update_cells n m (xs @ ys) state = update_cells n m ys (update_cells n m xs state)"
proof (induction xs arbitrary: state)
  case Nil
  show ?case by simp
next
  case (Cons x xs)
  obtain r t where s: "state = (r, t)" by (cases state)
  show ?case by (simp add: s Cons.IH split: prod.splits)
qed

lemma update_cells_dims:
  "update_cells n m cs (r, t) = (r', t') \<Longrightarrow> table_dims t' = table_dims t"
proof (induction cs arbitrary: r t)
  case Nil
  then show ?case by simp
next
  case (Cons c cs)
  obtain cr t1 where step: "update_table_cell t (cu_row c) (cu_column c) (cu_text c) = (cr, t1)"
    by (cases "update_table_cell t (cu_row c) (cu_column c) (cu_text c)")
  from Cons.prems step have "table_dims t' = table_dims t1"
    by (auto dest: Cons.IH)
  with update_table_cell_dims [OF step] show ?case by simp
qed

lemma update_cells_accounting:
  "update_cells n m cs (r, t) = (r', t') \<Longrightarrow>
   updates_applied r' + length (errors r')
     = updates_applied r + length (errors r) + length cs
   \<and> warnings r' = warnings r"
proof (induction cs arbitrary: r t)
  case Nil
  then show ?case by simp
next
  case (Cons c cs)
  obtain cr t1 where step: "update_table_cell t (cu_row c) (cu_column c) (cu_text c) = (cr, t1)"
    by (cases "update_table_cell t (cu_row c) (cu_column c) (cu_text c)")
  show ?case
  proof (cases "cr_success cr")
    case True
    with Cons.prems step
    have "update_cells n m cs (r\<lparr>updates_applied := updates_applied r + 1\<rparr>, t1) = (r', t')"
      by simp
    from Cons.IH [OF this] show ?thesis by simp
  next
    case False
    with Cons.prems step
    have "update_cells n m cs (r\<lparr>errors := errors r @ [cell_error_entry n m cr]\<rparr>, t1)
            = (r', t')"
      by simp
    from Cons.IH [OF this] show ?thesis by simp
  qed
qed

lemma prefix_with_errors:
  "prefix_errors es (r\<lparr>errors := []\<rparr>) = r\<lparr>errors := es\<rparr>"
  by (simp add: prefix_errors_def)

text \<open>
  A cell entry out of range anywhere in the list: the loop ends with the table and the
  report of the list without it, and one error entry more.
\<close>

lemma update_cells_out_of_range_removed:
  assumes "cell_out_of_range table c"
  shows "case update_cells n m (before @ after) (r, table) of
           (res, table') \<Rightarrow>
             \<exists>es1 es2. errors res = es1 @ es2
               \<and> update_cells n m (before @ c # after) (r, table)
                   = (res\<lparr>errors := es1 @ [cell_entry n m c (out_of_range_message table c)]
                              @ es2\<rparr>, table')"
proof -
  obtain rb tb where b: "update_cells n m before (r, table) = (rb, tb)"
    by (cases "update_cells n m before (r, table)")
  note dims = update_cells_dims [OF b]
  from assms have bad: "cell_out_of_range tb c"
    by (simp only: cell_out_of_range_dims(1) [OF dims])
  have msg: "out_of_range_message tb c = out_of_range_message table c"
    by (rule cell_out_of_range_dims(2) [OF dims])
  let ?entry = "cell_entry n m c (out_of_range_message table c)"
  let ?r00 = "rb\<lparr>errors := []\<rparr>"
  obtain ra ta where a: "update_cells n m after (?r00, tb) = (ra, ta)"
    by (cases "update_cells n m after (?r00, tb)")
  have rb: "rb = prefix_errors (errors rb) ?r00"
    by (simp add: prefix_errors_def)
  have step: "update_cells n m [c] (rb, tb)
      = (prefix_errors (errors rb @ [?entry]) ?r00, tb)"
    by (simp add: update_table_cell_out_of_range [OF bad] cell_failure_fields msg
        prefix_errors_def)
  have without: "update_cells n m (before @ after) (r, table)
      = (prefix_errors (errors rb) ra, ta)"
    using update_cells_prefix [of n m after "errors rb" ?r00 tb]
    by (simp add: update_cells_append b a rb [symmetric])
  have with_c: "update_cells n m (before @ c # after) (r, table)
      = (prefix_errors (errors rb @ [?entry]) ra, ta)"
    using update_cells_prefix [of n m after "errors rb @ [?entry]" ?r00 tb]
          update_cells_append [of n m "before @ [c]" after "(r, table)"]
          update_cells_append [of n m before "[c]" "(r, table)"]
    by (simp add: b a step del: update_cells.simps)
  have e1: "errors (prefix_errors (errors rb) ra) = errors rb @ errors ra" by simp
  have e2: "prefix_errors (errors rb @ [?entry]) ra
      = (prefix_errors (errors rb) ra)\<lparr>errors := errors rb @ [?entry] @ errors ra\<rparr>"
    by (simp add: prefix_errors_def)
  have "\<exists>es1 es2. errors (prefix_errors (errors rb) ra) = es1 @ es2
          \<and> update_cells n m (before @ c # after) (r, table)
              = ((prefix_errors (errors rb) ra)\<lparr>errors := es1 @ [?entry] @ es2\<rparr>, ta)"
    using e1 e2 with_c by metis
  then show ?thesis by (simp only: without prod.case)
qed

section \<open>Table cells\<close>

text \<open>
  C6. Take a fan-out over the cell entries \<^verbatim>\<open>before @ c # after\<close> in which the update
  of \<^verbatim>\<open>c\<close> fails at its turn. Then (1) the failure carries the message of an exception
  and the reference \<^verbatim>\<open>(row,col)\<close> of the cell, exactly one entry
  \<^verbatim>\<open>Slide N, Shape M, Cell (row,col): message\<close> is appended to the errors, and the loop
  goes on with the entries after it; (2) every entry of the list ends as one more applied
  update or one more error entry, none is skipped; (3) when \<^verbatim>\<open>c\<close> fails because its
  row or column is out of range, the table is not touched by it and the loop ends with
  the table and the report of the list without \<^verbatim>\<open>c\<close>, plus its one entry; (4) the
  pass of the dispatcher over such an instruction returns that report and the presentation
  with that table, it never raises.
\<close>

theorem cell_failures_isolated:
  assumes "update_cells n m before (r, table) = (r1, t1)"
    and "update_table_cell t1 (cu_row c) (cu_column c) (cu_text c) = (cell_result, t2)"
    and "\<not> cr_success cell_result"
  shows "(\<exists>e. cr_error cell_result = Some (str_exn e)
            \<and> cr_cell cell_result = cell_ref c
            \<and> update_cells n m (before @ c # after) (r, table)
                = update_cells n m after
                    (r1\<lparr>errors := errors r1 @ [cell_entry n m c (str_exn e)]\<rparr>, t2))
       \<and> (case update_cells n m (before @ c # after) (r, table) of
            (res, table') \<Rightarrow>
              updates_applied res + length (errors res)
                = updates_applied r + length (errors r) + length (before @ c # after))
       \<and> (cell_out_of_range table c \<longrightarrow>
            t2 = t1
            \<and> (case update_cells n m (before @ after) (r, table) of
                 (res, table') \<Rightarrow>
                   \<exists>es1 es2. errors res = es1 @ es2
                     \<and> update_cells n m (before @ c # after) (r, table)
                         = (res\<lparr>errors := es1
                                   @ [cell_entry n m c (out_of_range_message table c)]
                                   @ es2\<rparr>, table')))
       \<and> (upd_slide u = JInt n \<and> 1 \<le> n \<and> n \<le> int (length (slides prs))
            \<and> upd_shape u = JInt m \<and> 1 \<le> m
            \<and> m \<le> int (length (slides prs ! nat (n - 1)))
            \<and> slides prs ! nat (n - 1) ! nat (m - 1) = TableShape table
            \<and> upd_table_cells u = before @ c # after \<longrightarrow>
            apply_update u (r, prs)
              = (case update_cells n m (before @ c # after) (r, table) of
                   (res, table') \<Rightarrow>
                     Inr (res, set_shape prs (nat (n - 1)) (nat (m - 1)) (TableShape table'))))"
proof -
  from update_table_cell_failure [OF assms(2,3)]
  obtain e where res: "cell_result = cell_failure e (cu_row c) (cu_column c)" by blast
  have one: "update_cells n m (before @ c # after) (r, table)
                = update_cells n m after
                    (r1\<lparr>errors := errors r1 @ [cell_entry n m c (str_exn e)]\<rparr>, t2)"
    using assms
    by (simp add: update_cells_append res cell_failure_fields)
  have first: "\<exists>e. cr_error cell_result = Some (str_exn e)
            \<and> cr_cell cell_result = cell_ref c
            \<and> update_cells n m (before @ c # after) (r, table)
                = update_cells n m after
                    (r1\<lparr>errors := errors r1 @ [cell_entry n m c (str_exn e)]\<rparr>, t2)"
    using one by (auto simp: res cell_failure_fields)
  obtain rf tf where f: "update_cells n m (before @ c # after) (r, table) = (rf, tf)"
    by (cases "update_cells n m (before @ c # after) (r, table)")
  from update_cells_accounting [OF f]
  have second: "case update_cells n m (before @ c # after) (r, table) of
            (res, table') \<Rightarrow>
              updates_applied res + length (errors res)
                = updates_applied r + length (errors r) + length (before @ c # after)"
    by (simp add: f)
  have third: "cell_out_of_range table c \<longrightarrow>
            t2 = t1
            \<and> (case update_cells n m (before @ after) (r, table) of
                 (res, table') \<Rightarrow>
                   \<exists>es1 es2. errors res = es1 @ es2
                     \<and> update_cells n m (before @ c # after) (r, table)
                         = (res\<lparr>errors := es1
                                   @ [cell_entry n m c (out_of_range_message table c)]
                                   @ es2\<rparr>, table'))"
  proof
    assume bad: "cell_out_of_range table c"
    note dims = update_cells_dims [OF assms(1)]
    from bad have "cell_out_of_range t1 c"
      by (simp only: cell_out_of_range_dims(1) [OF dims])
    from update_table_cell_out_of_range [OF this, of "cu_text c"] assms(2)
    have "t2 = t1" by simp
    with update_cells_out_of_range_removed [OF bad, of n m before after r]
    show "t2 = t1
            \<and> (case update_cells n m (before @ after) (r, table) of
                 (res, table') \<Rightarrow>
                   \<exists>es1 es2. errors res = es1 @ es2
                     \<and> update_cells n m (before @ c # after) (r, table)
                         = (res\<lparr>errors := es1
                                   @ [cell_entry n m c (out_of_range_message table c)]
                                   @ es2\<rparr>, table'))"
      by simp
  qed
  have fourth: "upd_slide u = JInt n \<and> 1 \<le> n \<and> n \<le> int (length (slides prs))
            \<and> upd_shape u = JInt m \<and> 1 \<le> m
            \<and> m \<le> int (length (slides prs ! nat (n - 1)))
            \<and> slides prs ! nat (n - 1) ! nat (m - 1) = TableShape table
            \<and> upd_table_cells u = before @ c # after \<longrightarrow>
            apply_update u (r, prs)
              = (case update_cells n m (before @ c # after) (r, table) of
                   (res, table') \<Rightarrow>
                     Inr (res, set_shape prs (nat (n - 1)) (nat (m - 1)) (TableShape table')))"
  proof
    assume a: "upd_slide u = JInt n \<and> 1 \<le> n \<and> n \<le> int (length (slides prs))
            \<and> upd_shape u = JInt m \<and> 1 \<le> m
            \<and> m \<le> int (length (slides prs ! nat (n - 1)))
            \<and> slides prs ! nat (n - 1) ! nat (m - 1) = TableShape table
            \<and> upd_table_cells u = before @ c # after"
    then have nm: "upd_slide u = JInt n" "1 \<le> n" "n \<le> int (length (slides prs))"
      "upd_shape u = JInt m" "1 \<le> m" "m \<le> int (length (slides prs ! nat (n - 1)))"
      and t: "slides prs ! nat (n - 1) ! nat (m - 1) = TableShape table"
      and cs: "upd_table_cells u = before @ c # after"
      by simp_all
    show "apply_update u (r, prs)
              = (case update_cells n m (before @ c # after) (r, table) of
                   (res, table') \<Rightarrow>
                     Inr (res, set_shape prs (nat (n - 1)) (nat (m - 1)) (TableShape table')))"
      by (simp only: apply_update_in_range [OF nm] t cs shape.case) simp
  qed
  from first second third fourth show ?thesis by blast
qed

lemma two_good_cells:
  "case update_cells 1 3 [north_cell, south_cell] (initial_results, small_table) of
     (res, table') \<Rightarrow>
       errors res = [] \<and> updates_applied res = 2
       \<and> map (map text_frame_text) (rows table') = [[''North'', ''South'']]"
  by code_simp

lemma lost_cell_fails:
  "\<not> cr_success (fst (update_table_cell
       (snd (update_cells 1 3 [north_cell] (initial_results, small_table)))
       (cu_row lost_cell) (cu_column lost_cell) (cu_text lost_cell)))"
  by code_simp

text \<open>
  Column 5 of a two-column table between two good cell entries: both are applied and
  counted, and the one error entry refers to \<^verbatim>\<open>(0,5)\<close>.
\<close>

theorem cell_failures_witness:
  "\<not> cr_success (fst (update_table_cell
       (snd (update_cells 1 3 [north_cell] (initial_results, small_table)))
       (cu_row lost_cell) (cu_column lost_cell) (cu_text lost_cell)))
   \<and> cell_out_of_range small_table lost_cell
   \<and> (\<exists>res table'.
         apply_update fan_out_update (initial_results, table_slide)
           = Inr (res, set_shape table_slide 0 2 (TableShape table'))
         \<and> updates_applied res = 2
         \<and> errors res = [''Slide 1, Shape 3, Cell (0,5): cell index [5] out of range'']
         \<and> map (map text_frame_text) (rows table') = [[''North'', ''South'']])"
proof -
  let ?s1 = "update_cells 1 3 [north_cell] (initial_results, small_table)"
  let ?c = "update_table_cell (snd ?s1)
              (cu_row lost_cell) (cu_column lost_cell) (cu_text lost_cell)"
  have h1: "update_cells 1 3 [north_cell] (initial_results, small_table) = (fst ?s1, snd ?s1)"
    by simp
  have h2: "?c = (fst ?c, snd ?c)" by simp
  note h3 = lost_cell_fails
  have bad: "cell_out_of_range small_table lost_cell"
    by (simp add: cell_out_of_range_def lost_cell_def small_table_def)
  have msg: "cell_entry 1 3 lost_cell (out_of_range_message small_table lost_cell)
               = ''Slide 1, Shape 3, Cell (0,5): cell index [5] out of range''"
    by (simp add: cell_entry_def cell_ref_def out_of_range_message_def lost_cell_def
        small_table_def json_int_def str_int_def str_nat.simps digit_def)
  have target: "upd_slide fan_out_update = JInt 1 \<and> (1::int) \<le> 1
      \<and> 1 \<le> int (length (slides table_slide))
      \<and> upd_shape fan_out_update = JInt 3 \<and> (1::int) \<le> 3
      \<and> 3 \<le> int (length (slides table_slide ! nat (1 - 1)))
      \<and> slides table_slide ! nat (1 - 1) ! nat (3 - 1) = TableShape small_table
      \<and> upd_table_cells fan_out_update = [north_cell] @ lost_cell # [south_cell]"
    by (simp add: fan_out_update_def table_slide_def)
  note t = cell_failures_isolated
             [OF h1 h2 h3, of "[south_cell]" fan_out_update table_slide]
  obtain res0 t0 where
    w: "update_cells 1 3 [north_cell, south_cell] (initial_results, small_table) = (res0, t0)"
    and e0: "errors res0 = []" and n0: "updates_applied res0 = 2"
    and x0: "map (map text_frame_text) (rows t0) = [[''North'', ''South'']]"
    using two_good_cells by (auto split: prod.splits)
  from t bad have "\<exists>es1 es2. errors res0 = es1 @ es2
      \<and> update_cells 1 3 ([north_cell] @ lost_cell # [south_cell]) (initial_results, small_table)
          = (res0\<lparr>errors := es1
                    @ [cell_entry 1 3 lost_cell (out_of_range_message small_table lost_cell)]
                    @ es2\<rparr>, t0)"
    using w by simp
  with e0 have withc: "update_cells 1 3 ([north_cell] @ lost_cell # [south_cell])
        (initial_results, small_table)
      = (res0\<lparr>errors := [''Slide 1, Shape 3, Cell (0,5): cell index [5] out of range'']\<rparr>,
         t0)"
    by (auto simp: msg)
  from t target have "apply_update fan_out_update (initial_results, table_slide)
      = (case update_cells 1 3 ([north_cell] @ lost_cell # [south_cell])
                (initial_results, small_table) of
           (res, table') \<Rightarrow>
             Inr (res, set_shape table_slide (nat (1 - 1)) (nat (3 - 1)) (TableShape table')))"
    by blast
  then have "apply_update fan_out_update (initial_results, table_slide)
      = Inr (res0\<lparr>errors := [''Slide 1, Shape 3, Cell (0,5): cell index [5] out of range'']\<rparr>,
             set_shape table_slide 0 2 (TableShape t0))"
    by (simp only: withc prod.case) simp
  with h3 bad n0 x0 show ?thesis by auto
qed

text \<open>
  The text of a shape after the same call a second time is its text after the first
  call, whether the calls return or raise.
\<close>

lemma update_shape_text_twice_text:
  "extract_text_from_shape
     (snd (update_shape_text (snd (update_shape_text shape t pb w)) t pb w))
   = extract_text_from_shape (snd (update_shape_text shape t pb w))"
proof (cases shape)
  case (TextShape tf)
  show ?thesis
  proof (cases "paragraphs tf")
    case Nil
    with TextShape show ?thesis by (simp add: update_shape_text_empty)
  next
    case (Cons p rest)
    show ?thesis
    proof (cases "pb \<and> NL \<in> set t")
      case True
      then have pb: pb and nl: "NL \<in> set t" by simp_all
      let ?fmt = "capture_formatting tf"
      let ?p1 = "bullet_para ?fmt (level p) (hd (split_nl t))\<lparr>para_font := para_font p\<rparr>"
      let ?rest1 = "map (bullet_para ?fmt (level p)) (tl (split_nl t))"
      let ?tf1 = "tf\<lparr>paragraphs := ?p1 # ?rest1\<rparr>"
      have s1: "snd (update_shape_text shape t pb w) = TextShape ?tf1"
        by (simp add: TextShape update_shape_text_bullets [OF pb nl Cons])
      have ps1: "paragraphs ?tf1 = ?p1 # ?rest1" by simp
      show ?thesis
        unfolding s1
        by (simp add: update_shape_text_bullets [OF pb nl ps1]
            extract_text_from_shape_def text_frame_text_def)
    next
      case False
      let ?fmt = "capture_formatting tf"
      let ?tf1 = "tf\<lparr>paragraphs := simple_para ?fmt p t # rest\<rparr>"
      have s1: "snd (update_shape_text shape t pb w) = TextShape ?tf1"
        by (simp add: TextShape update_shape_text_simple [OF False Cons])
      have ps1: "paragraphs ?tf1 = simple_para ?fmt p t # rest" by simp
      show ?thesis
        unfolding s1
        by (simp add: update_shape_text_simple [OF False ps1]
            extract_text_from_shape_def text_frame_text_def)
    qed
  qed
next
  case (TableShape tb)
  then show ?thesis by (simp add: update_shape_text_def)
next
  case OtherShape
  then show ?thesis by (simp add: update_shape_text_def)
qed

lemma apply_update_regular:
  assumes "upd_slide u = JInt n" "1 \<le> n" "n \<le> int (length (slides prs))"
    and "upd_shape u = JInt m" "1 \<le> m" "m \<le> int (length (slides prs ! nat (n - 1)))"
    and "kind_of (slides prs ! nat (n - 1) ! nat (m - 1)) \<noteq> TableKind
         \<or> upd_table_cells u = []"
  shows "apply_update u (r, prs) =
     (case regular_update n m u (slides prs ! nat (n - 1) ! nat (m - 1)) r of
        Inl e \<Rightarrow> Inl e
      | Inr (r', shape') \<Rightarrow> Inr (r', set_shape prs (nat (n - 1)) (nat (m - 1)) shape'))"
  using assms(7)
  by (cases "slides prs ! nat (n - 1) ! nat (m - 1)")
     (simp_all add: apply_update_in_range [OF assms(1-6)])

lemma apply_update_fan_out:
  assumes "upd_slide u = JInt n" "1 \<le> n" "n \<le> int (length (slides prs))"
    and "upd_shape u = JInt m" "1 \<le> m" "m \<le> int (length (slides prs ! nat (n - 1)))"
    and "slides prs ! nat (n - 1) ! nat (m - 1) = TableShape table"
    and "upd_table_cells u \<noteq> []"
  shows "apply_update u (r, prs) =
     Inr (fst (update_cells n m (upd_table_cells u) (r, table)),
          set_shape prs (nat (n - 1)) (nat (m - 1))
            (TableShape (snd (update_cells n m (upd_table_cells u) (r, table)))))"
  using assms(7,8)
  by (simp add: apply_update_in_range [OF assms(1-6)] split: prod.splits)

lemma extracted_texts_same:
  assumes "extract_text_from_shape a = extract_text_from_shape b"
  shows "extracted_texts (set_shape prs si hi a) = extracted_texts (set_shape prs si hi b)"
  by (simp add: extracted_texts_set_shape assms)

text \<open>
  A pass that returned, repeated on the state it returned: it returns again and no
  extracted text changes.
\<close>

lemma apply_update_twice:
  assumes "apply_update u (r, prs) = Inr (r1, prs1)"
  shows "\<exists>r2 prs2. apply_update u (r1, prs1) = Inr (r2, prs2)
           \<and> extracted_texts prs2 = extracted_texts prs1"
proof (cases "slide_out_of_range prs u \<or> shape_out_of_range prs u")
  case True
  from apply_update_out_of_range [OF True, of r] assms have "prs1 = prs" by simp
  with apply_update_out_of_range [OF True, of r1] show ?thesis by simp
next
  case False
  from assms obtain n where n: "upd_slide u = JInt n"
    by (cases "upd_slide u") (simp_all add: apply_update_def)
  with False have nr: "1 \<le> n" "n \<le> int (length (slides prs))"
    by (simp_all add: slide_out_of_range_def)
  from assms n nr obtain m where m: "upd_shape u = JInt m"
    by (cases "upd_shape u") (simp_all add: apply_update_def Let_def)
  with False n nr have mr: "1 \<le> m" "m \<le> int (length (slides prs ! nat (n - 1)))"
    by (simp_all add: shape_out_of_range_def slide_in_range_def shape_count_on_slide_def
        json_int_def)
  let ?si = "nat (n - 1)" and ?hi = "nat (m - 1)"
  let ?sh = "slides prs ! ?si ! ?hi"
  from nr have si: "?si < length (slides prs)" by simp
  from mr have hi: "?hi < length (slides prs ! ?si)" by simp
  have nr1: "\<And>sh. n \<le> int (length (slides (set_shape prs ?si ?hi sh)))"
    using nr by simp
  have mr1: "\<And>sh. m \<le> int (length (slides (set_shape prs ?si ?hi sh) ! ?si))"
    using mr by simp
  show ?thesis
  proof (cases "\<exists>table. ?sh = TableShape table \<and> upd_table_cells u \<noteq> []")
    case True
    then obtain table where t: "?sh = TableShape table"
      and c: "upd_table_cells u \<noteq> []" by blast
    let ?t1 = "snd (update_cells n m (upd_table_cells u) (r, table))"
    from assms apply_update_fan_out [OF n nr m mr t c, of r]
    have p1: "prs1 = set_shape prs ?si ?hi (TableShape ?t1)" by simp
    have at1: "slides prs1 ! ?si ! ?hi = TableShape ?t1"
      unfolding p1 using si hi by (rule nth_set_shape)
    let ?t2 = "snd (update_cells n m (upd_table_cells u) (r1, ?t1))"
    have second: "apply_update u (r1, prs1) =
        Inr (fst (update_cells n m (upd_table_cells u) (r1, ?t1)),
             set_shape prs1 ?si ?hi (TableShape ?t2))"
      using apply_update_fan_out [OF n nr(1) _ m mr(1) _ at1 c, of r1] nr1 mr1
      by (simp add: p1)
    have "extracted_texts (set_shape prs1 ?si ?hi (TableShape ?t2)) = extracted_texts prs1"
      unfolding p1
      by (simp add: extracted_texts_set_shape extract_text_from_shape_def)
    with second show ?thesis by simp
  next
    case False
    then have reg: "kind_of ?sh \<noteq> TableKind \<or> upd_table_cells u = []"
      by (cases ?sh) auto
    from assms apply_update_regular [OF n nr m mr reg, of r]
    obtain sh1 where
      ru: "regular_update n m u ?sh r = Inr (r1, sh1)"
      and p1: "prs1 = set_shape prs ?si ?hi sh1"
      by (auto split: sum.splits prod.splits)
    from ru obtain ur where
      us: "update_shape_text ?sh (upd_text u) (upd_preserve_bullets u) True = (Inr ur, sh1)"
      by (auto simp: regular_update_def split: prod.splits sum.splits)
    from update_shape_text_twice [OF us] obtain ur2 sh2 where
      us2: "update_shape_text sh1 (upd_text u) (upd_preserve_bullets u) True = (Inr ur2, sh2)"
      and same: "extract_text_from_shape sh2 = extract_text_from_shape sh1"
      by blast
    from us2 obtain r2 where ru2: "regular_update n m u sh1 r1 = Inr (r2, sh2)"
      by (simp add: regular_update_def)
    have at1: "slides prs1 ! ?si ! ?hi = sh1"
      unfolding p1 using si hi by (rule nth_set_shape)
    have "kind_of sh1 = kind_of ?sh"
      using regular_update_kind [OF ru] .
    with reg have reg1: "kind_of (slides prs1 ! ?si ! ?hi) \<noteq> TableKind \<or> upd_table_cells u = []"
      by (simp add: at1)
    have second: "apply_update u (r1, prs1) = Inr (r2, set_shape prs1 ?si ?hi sh2)"
      using apply_update_regular [OF n nr(1) _ m mr(1) _ reg1, of r1] nr1 mr1
      by (simp add: p1 at1 [unfolded p1] ru2)
    have "extracted_texts (set_shape prs1 ?si ?hi sh2) = extracted_texts prs1"
    proof -
      have "extracted_texts (set_shape prs1 ?si ?hi sh2)
              = extracted_texts (set_shape prs ?si ?hi sh2)"
        by (simp add: p1)
      also have "\<dots> = extracted_texts (set_shape prs ?si ?hi sh1)"
        using same by (rule extracted_texts_same)
      finally show ?thesis by (simp add: p1)
    qed
    with second show ?thesis by simp
  qed
qed

text \<open>
  The text a call leaves in a frame with a first paragraph: in the bullet branch the
  escaped lines joined by line feeds, in the simple replacement the escaped new text
  followed by the texts of the paragraphs after the first. The old text of the first
  paragraph does not occur in it.
\<close>

lemma update_shape_text_written:
  assumes "paragraphs tf = p # rest"
  shows "extract_text_from_shape (snd (update_shape_text (TextShape tf) t pb w))
           = (if pb \<and> NL \<in> set t
              then join [NL] (map escape (split_nl t))
              else join [NL] (escape t # map paragraph_text rest))"
proof (cases "pb \<and> NL \<in> set t")
  case True
  then have pb: pb and nl: "NL \<in> set t" by simp_all
  have lines: "split_nl t = hd (split_nl t) # tl (split_nl t)"
    using split_nl_not_empty [of t] by simp
  have "extract_text_from_shape (snd (update_shape_text (TextShape tf) t pb w))
          = join [NL] (escape (hd (split_nl t)) # map escape (tl (split_nl t)))"
    by (simp add: update_shape_text_bullets [OF pb nl assms]
        extract_text_from_shape_def text_frame_text_def)
  also have "\<dots> = join [NL] (map escape (split_nl t))"
    by (subst (3) lines) simp
  finally show ?thesis using True by simp
next
  case False
  have "extract_text_from_shape (snd (update_shape_text (TextShape tf) t pb w))
          = join [NL] (escape t # map paragraph_text rest)"
    by (simp add: update_shape_text_simple [OF False assms]
        extract_text_from_shape_def text_frame_text_def)
  with False show ?thesis by (simp only: if_False)
qed

section \<open>Applying an instruction twice\<close>

text \<open>
  C8. (1) On the document tree: after the same update of a shape a second time, the
  extracted text of the shape is what it was after the first, for every shape and every
  call, returning or raising. (2) The text an update leaves in a frame with a first
  paragraph is made of the new text and of the paragraphs after the first, so the new
  text replaces what the first paragraph held and is not appended to it. (3) On the
  run: if \<^verbatim>\<open>apply_updates\<close> with the instruction once returns, then with the
  instruction twice it returns too and every shape of the saved presentation has the same
  extracted text; if it raises with the instruction once (nothing is saved), it raises
  the same exception with the instruction twice.
\<close>

theorem same_instruction_twice_same_text:
  "extract_text_from_shape
     (snd (update_shape_text (snd (update_shape_text shape new_text pb warn)) new_text pb warn))
     = extract_text_from_shape (snd (update_shape_text shape new_text pb warn))
   \<and> (paragraphs tf = p # rest \<longrightarrow>
        extract_text_from_shape (snd (update_shape_text (TextShape tf) new_text pb warn))
          = (if pb \<and> NL \<in> set new_text
             then join [NL] (map escape (split_nl new_text))
             else join [NL] (escape new_text # map paragraph_text rest)))
   \<and> (case apply_updates prs [u] out of
         Inl e \<Rightarrow> apply_updates prs [u, u] out = Inl e
       | Inr (res1, prs1) \<Rightarrow>
           \<exists>res2 prs2. apply_updates prs [u, u] out = Inr (res2, prs2)
             \<and> extracted_texts prs2 = extracted_texts prs1)"
proof -
  note one = update_shape_text_twice_text [of shape new_text pb warn]
  have two: "paragraphs tf = p # rest \<longrightarrow>
        extract_text_from_shape (snd (update_shape_text (TextShape tf) new_text pb warn))
          = (if pb \<and> NL \<in> set new_text
             then join [NL] (map escape (split_nl new_text))
             else join [NL] (escape new_text # map paragraph_text rest))"
    by (intro impI) (rule update_shape_text_written)
  have three: "case apply_updates prs [u] out of
         Inl e \<Rightarrow> apply_updates prs [u, u] out = Inl e
       | Inr (res1, prs1) \<Rightarrow>
           \<exists>res2 prs2. apply_updates prs [u, u] out = Inr (res2, prs2)
             \<and> extracted_texts prs2 = extracted_texts prs1"
  proof (cases "apply_update u (initial_results, prs)")
    case (Inl e)
    then show ?thesis
      by (simp add: apply_updates_def initial_results_def)
  next
    case (Inr s1)
    obtain r1 p1 where s1: "s1 = (r1, p1)" by (cases s1)
    from Inr s1 have a: "apply_update u (initial_results, prs) = Inr (r1, p1)" by simp
    from apply_update_twice [OF a] obtain r2 p2 where
      b: "apply_update u (r1, p1) = Inr (r2, p2)"
      and same: "extracted_texts p2 = extracted_texts p1"
      by blast
    have w1: "apply_updates prs [u] out = Inr (r1\<lparr>output_file := Some out\<rparr>, p1)"
      using a by (simp add: apply_updates_def initial_results_def)
    have w2: "apply_updates prs [u, u] out = Inr (r2\<lparr>output_file := Some out\<rparr>, p2)"
      using a b by (simp add: apply_updates_def initial_results_def)
    show ?thesis
      using same by (simp only: w1 w2 sum.case prod.case) blast
  qed
  from one two three show ?thesis by simp
qed

text \<open>
  The heading of the two-paragraph frame replaced once and twice reads the same, and the
  instruction for the text shape of the one-slide presentation applied once and twice
  saves the same presentation.
\<close>

theorem same_instruction_twice_witness:
  "paragraphs two_paragraph_frame
     = hd (paragraphs two_paragraph_frame) # tl (paragraphs two_paragraph_frame)
   \<and> extract_text_from_shape
       (snd (update_shape_text (TextShape two_paragraph_frame) ''New heading'' False True))
       = ''New heading\<newline>Detail''
   \<and> extract_text_from_shape
       (snd (update_shape_text
              (snd (update_shape_text (TextShape two_paragraph_frame) ''New heading'' False True))
              ''New heading'' False True))
       = ''New heading\<newline>Detail''
   \<and> (\<exists>res1 prs1 res2.
         apply_updates one_slide [hello_update] ''out.pptx'' = Inr (res1, prs1)
         \<and> apply_updates one_slide [hello_update, hello_update] ''out.pptx'' = Inr (res2, prs1)
         \<and> extracted_texts prs1 = [[''Hello'', []]])"
proof -
  have ps: "paragraphs two_paragraph_frame
     = hd (paragraphs two_paragraph_frame) # tl (paragraphs two_paragraph_frame)"
    by (simp add: two_paragraph_frame_def)
  note t = same_instruction_twice_same_text
             [of "TextShape two_paragraph_frame" "''New heading''" False True
                 two_paragraph_frame "hd (paragraphs two_paragraph_frame)"
                 "tl (paragraphs two_paragraph_frame)" one_slide hello_update "''out.pptx''"]
  have esc: "escape ''New heading'' = ''New heading''"
    by (simp add: escape_def escape_char_def is_control_def)
  have rest: "map paragraph_text (tl (paragraphs two_paragraph_frame)) = [''Detail'']"
    by (simp add: two_paragraph_frame_def paragraph_text_def)
  from t ps have first:
    "extract_text_from_shape
       (snd (update_shape_text (TextShape two_paragraph_frame) ''New heading'' False True))
       = ''New heading\<newline>Detail''"
    by (simp add: esc rest NL_def)
  from t first have second:
    "extract_text_from_shape
       (snd (update_shape_text
              (snd (update_shape_text (TextShape two_paragraph_frame) ''New heading'' False True))
              ''New heading'' False True))
       = ''New heading\<newline>Detail''"
    by simp
  have once: "case apply_updates one_slide [hello_update] ''out.pptx'' of
                Inl e \<Rightarrow> False
              | Inr (res1, prs1) \<Rightarrow> extracted_texts prs1 = [[''Hello'', []]]"
    by code_simp
  have twice: "case apply_updates one_slide [hello_update, hello_update] ''out.pptx'' of
                Inl e \<Rightarrow> False
              | Inr (res2, prs2) \<Rightarrow>
                  prs2 = snd (projr (apply_updates one_slide [hello_update] ''out.pptx''))"
    by code_simp
  obtain res1 prs1 where
    a: "apply_updates one_slide [hello_update] ''out.pptx'' = Inr (res1, prs1)"
    and x: "extracted_texts prs1 = [[''Hello'', []]]"
    using once by (auto split: sum.splits prod.splits)
  from twice a obtain res2 where
    b: "apply_updates one_slide [hello_update, hello_update] ''out.pptx'' = Inr (res2, prs1)"
    by (auto split: sum.splits prod.splits)
  from ps first second a b x show ?thesis by blast
qed

end
